theory Spec2Isabelle
  imports Complex_Main "HOL-Library.Word" "HOL-Library.Sublist"
begin

section \<open>Sand Saga: the grid simulation engine of game.js\<close>

text \<open>
  The engine keeps all of its state in the global object \<open>App\<close>, in the module-level
  cache \<open>matIndexMap\<close> and in the brush globals. The model threads one record through every
  function. Conventions:
  \<^item> a JavaScript object with string keys is an association list in insertion order
    (\<open>Object.keys\<close> is \<open>map fst\<close>); material ids are taken not to be array-index strings and
    not to be names inherited from \<open>Object.prototype\<close>;
  \<^item> a value that may be \<open>undefined\<close> is an \<open>option\<close>, with \<open>None\<close> for \<open>undefined\<close>;
  \<^item> a typed array is a list; a read outside it gives \<open>undefined\<close>, a write outside it is
    dropped, as typed arrays do;
  \<^item> a number is \<open>NaN\<close>, an infinity or a finite binary floating-point value, held as
    the real it denotes; arithmetic rounds to a double and a store into a \<open>Float32Array\<close>
    rounds to single precision (the two zeros are one value: nothing in the engine tells
    them apart);
  \<^item> the world arrays are \<open>null\<close> until \<open>allocateWorld\<close> has run: \<open>worldAllocated\<close> says
    whether they exist, and the lists are the arrays once they do;
  \<^item> \<open>Math.random\<close> is an unseeded source outside the program: the model reads it from a
    sample sequence \<open>mrand\<close> at position \<open>mrandPos\<close>;
  \<^item> the canvas is not modelled: \<open>render\<close> returns the chunks it repaints.
\<close>

subsection \<open>JavaScript values\<close>

datatype jsnum = NaN | PInf | NInf | Num real

definition pow2 :: "int \<Rightarrow> real" where
  "pow2 e = (if 0 \<le> e then 2 ^ nat e else 1 / 2 ^ nat (- e))"

text \<open>
  The binary exponent of a positive real: \<open>expUp x 0\<close> for \<open>x \<ge> 2\<close> and \<open>expDown x 0\<close>
  for \<open>x < 2\<close> give the \<open>e\<close> with \<open>2^e \<le> x < 2^(e+1)\<close>.
\<close>

function expUp :: "real \<Rightarrow> int \<Rightarrow> int" where
  "expUp x e = (if 2 \<le> x then expUp (x / 2) (e + 1) else e)"
  by pat_completeness auto
termination
proof (relation "measure (\<lambda>(x, e). nat \<lfloor>x\<rfloor>)")
  show "wf (measure (\<lambda>(x::real, e::int). nat \<lfloor>x\<rfloor>))" by simp
next
  fix x :: real and e :: int
  assume "2 \<le> x"
  then have "x / 2 \<le> x - 1" by simp
  then have "\<lfloor>x / 2\<rfloor> \<le> \<lfloor>x - 1\<rfloor>" by (rule floor_mono)
  moreover have "1 \<le> \<lfloor>x\<rfloor>" using \<open>2 \<le> x\<close> by linarith
  ultimately show "((x / 2, e + 1), (x, e)) \<in> measure (\<lambda>(x, e). nat \<lfloor>x\<rfloor>)"
    by simp
qed

function expDown :: "real \<Rightarrow> int \<Rightarrow> int" where
  "expDown x e = (if 0 < x \<and> x < 1 then expDown (2 * x) (e - 1) else e)"
  by pat_completeness auto
termination
proof (relation "measure (\<lambda>(x, e). nat \<lfloor>1 / x\<rfloor>)")
  show "wf (measure (\<lambda>(x::real, e::int). nat \<lfloor>1 / x\<rfloor>))" by simp
next
  fix x :: real and e :: int
  assume a: "0 < x \<and> x < 1"
  define y where "y = 1 / x"
  have y: "1 < y" using a by (simp add: y_def)
  have h: "1 / (2 * x) = y / 2" by (simp add: y_def)
  have "\<lfloor>y / 2\<rfloor> < \<lfloor>y\<rfloor>"
  proof (cases "2 \<le> y")
    case True
    then have "y / 2 \<le> y - 1" by simp
    then have "\<lfloor>y / 2\<rfloor> \<le> \<lfloor>y - 1\<rfloor>" by (rule floor_mono)
    then show ?thesis by simp
  next
    case False
    then have "\<lfloor>y / 2\<rfloor> = 0" using y by (simp add: floor_eq_iff)
    moreover have "1 \<le> \<lfloor>y\<rfloor>" using y by linarith
    ultimately show ?thesis by simp
  qed
  moreover have "0 < \<lfloor>y\<rfloor>" using y by linarith
  ultimately have "nat \<lfloor>y / 2\<rfloor> < nat \<lfloor>y\<rfloor>"
    by (simp only: zless_nat_conj)
  then show "((2 * x, e - 1), (x, e)) \<in> measure (\<lambda>(x, e). nat \<lfloor>1 / x\<rfloor>)"
    unfolding h [symmetric] y_def by (simp add: mult.commute)
qed

definition roundHalfEven :: "real \<Rightarrow> int" where
  "roundHalfEven m = (let f = \<lfloor>m\<rfloor>; d = m - of_int f
                      in if d < 1 / 2 then f else if 1 / 2 < d then f + 1
                         else if even f then f else f + 1)"

text \<open>
  \<open>fround p emin emax x\<close>: the binary floating-point value nearest to \<open>x\<close>, ties to even,
  for a format of \<open>p\<close> significant bits and normal exponents \<open>emin\<close> to \<open>emax\<close> (IEEE 754
  round-to-nearest): below \<open>2^emin\<close> the spacing stays that of the subnormals, and a result
  beyond the largest finite value is an infinity.
\<close>

definition fround :: "nat \<Rightarrow> int \<Rightarrow> int \<Rightarrow> real \<Rightarrow> jsnum" where
  "fround p emin emax x =
     (let a = \<bar>x\<bar>;
          e0 = (if 2 \<le> a then expUp a 0 else expDown a 0)
      in if emax < e0 then (if 0 < x then PInf else NInf)
         else
           (let e = max e0 emin;
                q = e - int p + 1;
                n = roundHalfEven (x / pow2 q)
            in if e = emax \<and> 2 ^ p \<le> \<bar>n\<bar> then (if 0 < x then PInf else NInf)
               else Num (of_int n * pow2 q)))"

text \<open>A double, and a \<open>Float32Array\<close> cell.\<close>

definition rd64 :: "real \<Rightarrow> jsnum" where
  "rd64 = fround 53 (- 1022) 1023"

definition rd32 :: "real \<Rightarrow> jsnum" where
  "rd32 = fround 24 (- 126) 127"

text \<open>A numeric literal of the source or of a JSON text, and a store into a \<open>Float32Array\<close>.\<close>

definition jsLit :: "real \<Rightarrow> jsnum" where
  "jsLit x = rd64 x"

fun f32 :: "jsnum \<Rightarrow> jsnum" where
  "f32 (Num a) = rd32 a"
| "f32 v = v"

fun jneg :: "jsnum \<Rightarrow> jsnum" where
  "jneg (Num a) = Num (- a)"
| "jneg PInf = NInf"
| "jneg NInf = PInf"
| "jneg NaN = NaN"

fun jadd :: "jsnum \<Rightarrow> jsnum \<Rightarrow> jsnum" where
  "jadd (Num a) (Num b) = rd64 (a + b)"
| "jadd NaN _ = NaN"
| "jadd _ NaN = NaN"
| "jadd PInf NInf = NaN"
| "jadd NInf PInf = NaN"
| "jadd PInf _ = PInf"
| "jadd _ PInf = PInf"
| "jadd NInf _ = NInf"
| "jadd _ NInf = NInf"

definition jsub :: "jsnum \<Rightarrow> jsnum \<Rightarrow> jsnum" where
  "jsub a b = jadd a (jneg b)"

fun jmul :: "jsnum \<Rightarrow> jsnum \<Rightarrow> jsnum" where
  "jmul (Num a) (Num b) = rd64 (a * b)"
| "jmul NaN _ = NaN"
| "jmul _ NaN = NaN"
| "jmul PInf (Num b) = (if b = 0 then NaN else if 0 < b then PInf else NInf)"
| "jmul NInf (Num b) = (if b = 0 then NaN else if 0 < b then NInf else PInf)"
| "jmul (Num a) PInf = (if a = 0 then NaN else if 0 < a then PInf else NInf)"
| "jmul (Num a) NInf = (if a = 0 then NaN else if 0 < a then NInf else PInf)"
| "jmul PInf PInf = PInf"
| "jmul NInf NInf = PInf"
| "jmul PInf NInf = NInf"
| "jmul NInf PInf = NInf"

text \<open>Division is only ever by a neighbour count, which is at least 1.\<close>

fun jdivn :: "jsnum \<Rightarrow> nat \<Rightarrow> jsnum" where
  "jdivn (Num a) n = rd64 (a / real n)"
| "jdivn v n = v"

fun jlt :: "jsnum \<Rightarrow> jsnum \<Rightarrow> bool" where
  "jlt (Num a) (Num b) = (a < b)"
| "jlt NaN _ = False"
| "jlt _ NaN = False"
| "jlt PInf _ = False"
| "jlt _ NInf = False"
| "jlt NInf _ = True"
| "jlt _ PInf = True"

datatype error = InvalidSaveFile | RangeError | TypeError

definition truthy :: "int option \<Rightarrow> bool" where
  "truthy v = (case v of None \<Rightarrow> False | Some n \<Rightarrow> n \<noteq> 0)"

definition js_or :: "int option \<Rightarrow> int option \<Rightarrow> int option" where
  "js_or a b = (if truthy a then a else b)"

definition wrap32 :: "int \<Rightarrow> int" where
  "wrap32 n = (n + 2147483648) mod 4294967296 - 2147483648"

text \<open>What an \<open>Int32Array\<close> cell holds after a value is stored into it.\<close>

definition toInt32 :: "int option \<Rightarrow> int" where
  "toInt32 v = (case v of None \<Rightarrow> 0 | Some n \<Rightarrow> wrap32 n)"

definition arr_get :: "'a list \<Rightarrow> int \<Rightarrow> 'a option" where
  "arr_get xs i = (if 0 \<le> i \<and> i < int (length xs) then Some (xs ! nat i) else None)"

definition arr_set :: "'a list \<Rightarrow> int \<Rightarrow> 'a \<Rightarrow> 'a list" where
  "arr_set xs i v = (if 0 \<le> i \<and> i < int (length xs) then xs[nat i := v] else xs)"

text \<open>Property assignment \<open>obj[k] = v\<close>: an existing key keeps its place, a new one is appended.\<close>

fun obj_set :: "'k \<Rightarrow> 'v \<Rightarrow> ('k \<times> 'v) list \<Rightarrow> ('k \<times> 'v) list" where
  "obj_set k v [] = [(k, v)]"
| "obj_set k v ((k', v') # kvs) = (if k' = k then (k, v) # kvs else (k', v') # obj_set k v kvs)"

subsection \<open>Materials and the application state\<close>

text \<open>The fields of a material that the engine reads; name, colour and density are left out.\<close>

record material =
  mid :: string
  solid :: bool
  flow :: bool
  isGas :: bool
  flammable :: bool
  isTool :: bool
  mtemp :: "real option"

record app =
  gridW :: nat
  gridH :: nat
  worldMat :: "int list"
  worldTemp :: "jsnum list"
  worldMeta :: "nat list"
  chunksX :: nat
  chunksY :: nat
  dirtyChunks :: "nat list"
  worldAllocated :: bool
  materials :: "(string \<times> material) list"
  matIndexMap :: "(string \<times> int) list"
  rng :: "32 word"
  mrand :: "nat \<Rightarrow> real"
  mrandPos :: nat
  toggleTemp :: bool
  brushSize :: int
  brushSoft :: bool
  currentMaterial :: string

definition chunkSize :: nat where
  "chunkSize = 16"

text \<open>
  \<open>rand(seed)\<close>: the closure's state is the 32-bit \<open>s\<close>. The product and sum stay below
  \<open>2^53\<close>, so the double arithmetic followed by \<open>>>> 0\<close> is arithmetic modulo \<open>2^32\<close>.
  The sample returned is \<open>s / 2^32\<close>.
\<close>

definition rngNext :: "app \<Rightarrow> real \<times> app" where
  "rngNext st = (let s = rng st * 1664525 + 1013904223
                 in (real_of_int (uint s) / 4294967296, st\<lparr>rng := s\<rparr>))"

definition mathRandom :: "app \<Rightarrow> real \<times> app" where
  "mathRandom st = (mrand st (mrandPos st), st\<lparr>mrandPos := Suc (mrandPos st)\<rparr>)"

definition clamp :: "jsnum \<Rightarrow> jsnum \<Rightarrow> jsnum \<Rightarrow> jsnum" where
  "clamp v a b = (if jlt v a then a else if jlt b v then b else v)"

definition idx :: "app \<Rightarrow> int \<Rightarrow> int \<Rightarrow> int" where
  "idx st x y = y * int (gridW st) + x"

subsection \<open>Material registry\<close>

definition mk_material :: "string \<Rightarrow> material" where
  "mk_material i = \<lparr>mid = i, solid = False, flow = False, isGas = False,
                     flammable = False, isTool = False, mtemp = None\<rparr>"

definition defaultMaterials :: "(string \<times> material) list" where
  "defaultMaterials =
     [(''EMPTY'', mk_material ''EMPTY''),
      (''SAND'', (mk_material ''SAND'')\<lparr>flow := True\<rparr>),
      (''WATER'', (mk_material ''WATER'')\<lparr>flow := True\<rparr>),
      (''FIRE'', (mk_material ''FIRE'')\<lparr>isGas := True, mtemp := Some 800\<rparr>),
      (''STONE'', (mk_material ''STONE'')\<lparr>solid := True\<rparr>)]"

text \<open>
  \<open>prepareMaterials\<close>: the base materials in their order, then the generated variants
  (\<open>vs\<close>, the entries the variant loop produces, in order; their ids and tints are computed
  outside the model), then the two mandatory tools unless already present.
\<close>

definition prepareMaterials :: "(string \<times> material) list \<Rightarrow> (string \<times> material) list
    \<Rightarrow> (string \<times> material) list" where
  "prepareMaterials base vs =
     (let m0 = fold (\<lambda>(k, v) m. obj_set k v m) base [];
          m1 = fold (\<lambda>(k, v) m. obj_set k v m) vs m0;
          m2 = (case map_of m1 ''ERASER'' of Some _ \<Rightarrow> m1
                | None \<Rightarrow> obj_set ''ERASER'' ((mk_material ''ERASER'')\<lparr>isTool := True\<rparr>) m1);
          m3 = (case map_of m2 ''WALL'' of Some _ \<Rightarrow> m2
                | None \<Rightarrow> obj_set ''WALL'' ((mk_material ''WALL'')\<lparr>solid := True\<rparr>) m2)
      in m3)"

text \<open>
  \<open>getMatIndex\<close>: answer from the cache; on a miss, store the index of every key of
  \<open>App.materials\<close> in the cache and answer from it (\<open>undefined\<close> for an unknown id).
\<close>

definition getMatIndex :: "string \<Rightarrow> app \<Rightarrow> int option \<times> app" where
  "getMatIndex k st =
     (case map_of (matIndexMap st) k of
        Some i \<Rightarrow> (Some i, st)
      | None \<Rightarrow>
          (let keys = map fst (materials st);
               m = fold (\<lambda>i m. obj_set (keys ! i) (int i) m) [0..<length keys] (matIndexMap st)
           in (map_of m k, st\<lparr>matIndexMap := m\<rparr>)))"

text \<open>
  \<open>getMatByIndex\<close>: \<open>keys[idx]\<close> is \<open>undefined\<close> outside the key list, and
  \<open>App.materials[undefined]\<close> reads the property named \<open>undefined\<close>.
\<close>

definition getMatByIndex :: "int option \<Rightarrow> app \<Rightarrow> material option" where
  "getMatByIndex ix st =
     (let keys = map fst (materials st);
          k = (case ix of
                 Some n \<Rightarrow> if 0 \<le> n \<and> n < int (length keys) then keys ! nat n else ''undefined''
               | None \<Rightarrow> ''undefined'')
      in map_of (materials st) k)"

subsection \<open>World memory and chunks\<close>

definition markAllDirty :: "app \<Rightarrow> app" where
  "markAllDirty st = st\<lparr>dirtyChunks := map (\<lambda>_. 1) (dirtyChunks st)\<rparr>"

definition markChunkDirtyForCell :: "int \<Rightarrow> int \<Rightarrow> app \<Rightarrow> app" where
  "markChunkDirtyForCell x y st =
     (let cx = x div int chunkSize; cy = y div int chunkSize
      in if cx < 0 \<or> cx \<ge> int (chunksX st) \<or> cy < 0 \<or> cy \<ge> int (chunksY st) then st
         else st\<lparr>dirtyChunks := arr_set (dirtyChunks st) (cy * int (chunksX st) + cx) 1\<rparr>)"

definition allocateWorld :: "nat \<Rightarrow> nat \<Rightarrow> app \<Rightarrow> app" where
  "allocateWorld w h st =
     (let cX = max 1 ((w + chunkSize - 1) div chunkSize);
          cY = max 1 ((h + chunkSize - 1) div chunkSize);
          st1 = st\<lparr>gridW := w, gridH := h,
                   worldMat := replicate (w * h) 0,
                   worldTemp := replicate (w * h) (Num 0),
                   worldMeta := replicate (w * h) 0,
                   chunksX := cX, chunksY := cY,
                   dirtyChunks := replicate (cX * cY) 0,
                   worldAllocated := True\<rparr>;
          (e, st2) = getMatIndex ''EMPTY'' st1;
          st3 = st2\<lparr>worldMat := map (\<lambda>_. toInt32 (js_or e (Some (- 1)))) (worldMat st2)\<rparr>;
          st4 = st3\<lparr>worldTemp := map (\<lambda>_. Num 20) (worldTemp st3)\<rparr>
      in markAllDirty st4)"

definition setMatAt :: "int \<Rightarrow> int \<Rightarrow> string \<Rightarrow> app \<Rightarrow> app" where
  "setMatAt x y k st =
     (if x < 0 \<or> x \<ge> int (gridW st) \<or> y < 0 \<or> y \<ge> int (gridH st) then st
      else let i = idx st x y;
               (a, st1) = getMatIndex k st;
               (v, st2) = (if truthy a then (a, st1) else getMatIndex ''EMPTY'' st1);
               st3 = st2\<lparr>worldMat := arr_set (worldMat st2) i (toInt32 v)\<rparr>
           in markChunkDirtyForCell x y st3)"

subsection \<open>Rendering\<close>

text \<open>
  \<open>render\<close> visits the chunks row by row; a chunk whose flag is set has the flag cleared and
  is repainted. The result lists the repainted chunks as \<open>(cx, cy)\<close>.
\<close>

definition chunkCoords :: "app \<Rightarrow> (nat \<times> nat) list" where
  "chunkCoords st = concat (map (\<lambda>cy. map (\<lambda>cx. (cx, cy)) [0..<chunksX st]) [0..<chunksY st])"

definition chunkFlagSet :: "app \<Rightarrow> nat \<times> nat \<Rightarrow> bool" where
  "chunkFlagSet st c = (case arr_get (dirtyChunks st) (int (snd c * chunksX st + fst c)) of
                          None \<Rightarrow> False | Some f \<Rightarrow> f \<noteq> 0)"

fun renderChunks :: "(nat \<times> nat) list \<Rightarrow> app \<Rightarrow> (nat \<times> nat) list \<times> app" where
  "renderChunks [] st = ([], st)"
| "renderChunks (c # cs) st =
     (if \<not> chunkFlagSet st c then renderChunks cs st
      else let st1 = st\<lparr>dirtyChunks :=
                          arr_set (dirtyChunks st) (int (snd c * chunksX st + fst c)) 0\<rparr>;
               (p, st2) = renderChunks cs st1
           in (c # p, st2))"

definition render :: "app \<Rightarrow> (nat \<times> nat) list \<times> app" where
  "render st = renderChunks (chunkCoords st) st"

text \<open>
  The state after \<open>prepareMaterials\<close> and before the first allocation, for a prepared
  registry \<open>ms\<close>, a seed and a \<open>Math.random\<close> sample sequence. The world arrays are
  still \<open>null\<close>. \<open>boot\<close> attaches the canvas listeners before it reaches this state and
  allocates after it, so the brush can be run on it.
\<close>

definition initApp :: "(string \<times> material) list \<Rightarrow> 32 word \<Rightarrow> (nat \<Rightarrow> real) \<Rightarrow> app" where
  "initApp ms seed mr =
     \<lparr>gridW = 400, gridH = 300, worldMat = [], worldTemp = [], worldMeta = [],
      chunksX = 0, chunksY = 0, dirtyChunks = [], worldAllocated = False,
      materials = ms, matIndexMap = [],
      rng = seed, mrand = mr, mrandPos = 0, toggleTemp = False,
      brushSize = 6, brushSoft = False, currentMaterial = ''SAND''\<rparr>"

subsection \<open>The simulation tick, pass 1: movement and temperature\<close>

text \<open>
  Every material object is taken to carry its \<open>id\<close>. The bounds \<open>W\<close> and \<open>H\<close> that
  \<open>simTick\<close> reads once are \<open>gridW\<close> and \<open>gridH\<close>, which no step of the tick assigns.
\<close>

text \<open>The test \<open>m && !m.solid\<close> on a material that may be \<open>undefined\<close>.\<close>

definition nonSolid :: "material option \<Rightarrow> bool" where
  "nonSolid m = (case m of None \<Rightarrow> False | Some mt \<Rightarrow> \<not> solid mt)"

text \<open>
  The block every move repeats: write the material index into the destination, write the
  index of \<open>EMPTY\<close> into the source, mark the chunks of both cells.
\<close>

definition moveCell :: "int \<Rightarrow> int \<Rightarrow> int \<Rightarrow> int \<Rightarrow> int option \<Rightarrow> app \<Rightarrow> app" where
  "moveCell x y x2 y2 mIdx st =
     (let st1 = st\<lparr>worldMat := arr_set (worldMat st) (idx st x2 y2) (toInt32 mIdx)\<rparr>;
          (e, st2) = getMatIndex ''EMPTY'' st1;
          st3 = st2\<lparr>worldMat := arr_set (worldMat st2) (idx st2 x y) (toInt32 e)\<rparr>
      in markChunkDirtyForCell x2 y2 (markChunkDirtyForCell x y st3))"

text \<open>Each stage returns whether it moved the cell (the source's \<open>continue\<close>).\<close>

definition sandStage :: "int \<Rightarrow> int \<Rightarrow> int option \<Rightarrow> app \<Rightarrow> bool \<times> app" where
  "sandStage x y mIdx st =
     (if y + 1 < int (gridH st) then
        (let below = arr_get (worldMat st) (idx st x (y + 1))
         in if nonSolid (getMatByIndex below st) then (True, moveCell x y x (y + 1) mIdx st)
            else
              (let (u, st1) = rngNext st;
                   dir = (if u < 0.5 then - 1 else 1)
               in if x + dir \<ge> 0 \<and> x + dir < int (gridW st1) \<and> y + 1 < int (gridH st1) then
                    (let diag = arr_get (worldMat st1) (idx st1 (x + dir) (y + 1))
                     in if nonSolid (getMatByIndex diag st1)
                        then (True, moveCell x y (x + dir) (y + 1) mIdx st1)
                        else (False, st1))
                  else (False, st1)))
      else (False, st))"

definition flowStage :: "int \<Rightarrow> int \<Rightarrow> int option \<Rightarrow> app \<Rightarrow> bool \<times> app" where
  "flowStage x y mIdx st =
     (if y + 1 < int (gridH st)
         \<and> nonSolid (getMatByIndex (arr_get (worldMat st) (idx st x (y + 1))) st)
      then (True, moveCell x y x (y + 1) mIdx st)
      else
        (let (u, st1) = rngNext st;
             dx = (if u < 0.5 then - 1 else 1)
         in if x + dx \<ge> 0 \<and> x + dx < int (gridW st1) then
              (let side = arr_get (worldMat st1) (idx st1 (x + dx) y)
               in if nonSolid (getMatByIndex side st1)
                  then (True, moveCell x y (x + dx) y mIdx st1)
                  else (False, st1))
            else (False, st1)))"

definition gasStage :: "int \<Rightarrow> int \<Rightarrow> int option \<Rightarrow> app \<Rightarrow> bool \<times> app" where
  "gasStage x y mIdx st =
     (if y - 1 \<ge> 0
         \<and> nonSolid (getMatByIndex (arr_get (worldMat st) (idx st x (y - 1))) st)
      then (True, moveCell x y x (y - 1) mIdx st)
      else (False, st))"

definition moveStages :: "int \<Rightarrow> int \<Rightarrow> int option \<Rightarrow> material \<Rightarrow> app \<Rightarrow> bool \<times> app" where
  "moveStages x y mIdx mat st =
     (let (m1, st1) = (if prefix ''SAND'' (mid mat) \<or> mid mat = ''SAND''
                       then sandStage x y mIdx st else (False, st))
      in if m1 then (True, st1)
         else
           (let (m2, st2) = (if flow mat \<or> mid mat = ''WATER'' \<or> mid mat = ''OIL''
                             then flowStage x y mIdx st1 else (False, st1))
            in if m2 then (True, st2)
               else if isGas mat then gasStage x y mIdx st2 else (False, st2)))"

text \<open>A temperature read; \<open>undefined\<close> behaves as \<open>NaN\<close> in the arithmetic and comparisons.\<close>

definition tempAt :: "app \<Rightarrow> int \<Rightarrow> jsnum" where
  "tempAt st i = (case arr_get (worldTemp st) i of Some v \<Rightarrow> v | None \<Rightarrow> NaN)"

definition diffuseTemp :: "int \<Rightarrow> int \<Rightarrow> app \<Rightarrow> app" where
  "diffuseTemp x y st =
     (let i = idx st x y;
          t = tempAt st i;
          (sum0, count0) = (t, 1::nat);
          (sum1, count1) = (if x > 0 then (jadd sum0 (tempAt st (idx st (x - 1) y)), count0 + 1)
                            else (sum0, count0));
          (sum2, count2) = (if x + 1 < int (gridW st)
                            then (jadd sum1 (tempAt st (idx st (x + 1) y)), count1 + 1)
                            else (sum1, count1));
          (sum3, count3) = (if y > 0 then (jadd sum2 (tempAt st (idx st x (y - 1))), count2 + 1)
                            else (sum2, count2));
          (sum4, count4) = (if y + 1 < int (gridH st)
                            then (jadd sum3 (tempAt st (idx st x (y + 1))), count3 + 1)
                            else (sum3, count3));
          avg = jdivn sum4 count4
      in st\<lparr>worldTemp :=
              arr_set (worldTemp st) i (f32 (jadd t (jmul (jsub avg t) (jsLit 0.1))))\<rparr>)"

text \<open>The three threshold tests, in the order of the source; each reads the cell again.\<close>

definition boilStep :: "int \<Rightarrow> int \<Rightarrow> int option \<Rightarrow> material \<Rightarrow> app \<Rightarrow> app" where
  "boilStep x y mIdx mat st =
     (let i = idx st x y
      in if mid mat = ''WATER'' \<and> jlt (Num 100) (tempAt st i) then
           (let (s, sa) = getMatIndex ''STEAM'' st;
                sb = sa\<lparr>worldMat := arr_set (worldMat sa) i (toInt32 (js_or s mIdx))\<rparr>;
                sc = sb\<lparr>worldTemp :=
                        arr_set (worldTemp sb) i (f32 (jadd (tempAt sb i) (Num 10)))\<rparr>
            in markChunkDirtyForCell x y sc)
         else st)"

definition solidifyStep :: "int \<Rightarrow> int \<Rightarrow> material \<Rightarrow> app \<Rightarrow> app" where
  "solidifyStep x y mat st =
     (let i = idx st x y
      in if mid mat = ''LAVA'' \<and> jlt (tempAt st i) (Num 500)
            \<and> map_of (materials st) ''STONE'' \<noteq> None then
           (let (s, sa) = getMatIndex ''STONE'' st;
                sb = sa\<lparr>worldMat := arr_set (worldMat sa) i (toInt32 s)\<rparr>;
                sc = sb\<lparr>worldTemp := arr_set (worldTemp sb) i (Num 100)\<rparr>
            in markChunkDirtyForCell x y sc)
         else st)"

definition igniteStep :: "int \<Rightarrow> int \<Rightarrow> material \<Rightarrow> app \<Rightarrow> app" where
  "igniteStep x y mat st =
     (let i = idx st x y
      in if flammable mat \<and> jlt (Num 300) (tempAt st i) then
           (let (s, sa) = getMatIndex ''FIRE'' st;
                sb = sa\<lparr>worldMat := arr_set (worldMat sa) i (toInt32 s)\<rparr>;
                sc = sb\<lparr>worldTemp := arr_set (worldTemp sb) i (Num 800)\<rparr>
            in markChunkDirtyForCell x y sc)
         else st)"

definition thermalStage :: "int \<Rightarrow> int \<Rightarrow> int option \<Rightarrow> material \<Rightarrow> app \<Rightarrow> app" where
  "thermalStage x y mIdx mat st =
     igniteStep x y mat (solidifyStep x y mat (boilStep x y mIdx mat st))"

definition tempStage :: "int \<Rightarrow> int \<Rightarrow> int option \<Rightarrow> material \<Rightarrow> app \<Rightarrow> app" where
  "tempStage x y mIdx mat st = thermalStage x y mIdx mat (diffuseTemp x y st)"

definition pass1Cell :: "int \<Rightarrow> int \<Rightarrow> app \<Rightarrow> app" where
  "pass1Cell x y st =
     (let mIdx = arr_get (worldMat st) (idx st x y)
      in if (case mIdx of Some n \<Rightarrow> n < 0 | None \<Rightarrow> False) then st
         else
           (case getMatByIndex mIdx st of
              None \<Rightarrow> st
            | Some mat \<Rightarrow>
                if mid mat = ''WALL'' \<or> mid mat = ''ERASER'' then st
                else
                  (let (moved, st1) = moveStages x y mIdx mat st
                   in if moved then st1
                      else if toggleTemp st1 then tempStage x y mIdx mat st1
                      else st1)))"

subsection \<open>The simulation tick, pass 2: reactions\<close>

definition neighborCoords :: "app \<Rightarrow> int \<Rightarrow> int \<Rightarrow> (int \<times> int) list" where
  "neighborCoords st x y =
     (if x > 0 then [(x - 1, y)] else [])
     @ (if x + 1 < int (gridW st) then [(x + 1, y)] else [])
     @ (if y > 0 then [(x, y - 1)] else [])
     @ (if y + 1 < int (gridH st) then [(x, y + 1)] else [])"

definition neighborIs :: "string \<Rightarrow> int \<times> int \<Rightarrow> app \<Rightarrow> bool" where
  "neighborIs k n st =
     (case getMatByIndex (arr_get (worldMat st) (idx st (fst n) (snd n))) st of
        None \<Rightarrow> False | Some nMat \<Rightarrow> mid nMat = k)"

definition acidStep :: "int \<times> int \<Rightarrow> app \<Rightarrow> app" where
  "acidStep n st =
     (if neighborIs ''METAL'' n st then
        (let (u, st1) = mathRandom st
         in if u < 0.02 then
              (let (s, st2) = getMatIndex ''STONE'' st1;
                   st3 = st2\<lparr>worldMat :=
                            arr_set (worldMat st2) (idx st2 (fst n) (snd n)) (toInt32 s)\<rparr>
               in markChunkDirtyForCell (fst n) (snd n) st3)
            else st1)
      else st)"

definition oilStep :: "int \<Rightarrow> int \<Rightarrow> int \<times> int \<Rightarrow> app \<Rightarrow> app" where
  "oilStep x y n st =
     (if neighborIs ''FIRE'' n st then
        (let (u, st1) = mathRandom st
         in if u < 0.2 then
              (let (s, st2) = getMatIndex ''FIRE'' st1;
                   st3 = st2\<lparr>worldMat := arr_set (worldMat st2) (idx st2 x y) (toInt32 s)\<rparr>
               in markChunkDirtyForCell x y st3)
            else st1)
      else st)"

definition seedStep :: "int \<Rightarrow> int \<Rightarrow> int \<times> int \<Rightarrow> app \<Rightarrow> app" where
  "seedStep x y n st =
     (if neighborIs ''WATER'' n st then
        (let (u, st1) = mathRandom st
         in if u < 0.05 then
              (let (s, st2) = getMatIndex ''SEED'' st1;
                   st3 = st2\<lparr>worldMat := arr_set (worldMat st2) (idx st2 x y) (toInt32 s)\<rparr>;
                   (u2, st4) = mathRandom st3
               in if u2 < 0.02 then
                    (let (wd, st5) = getMatIndex ''WOOD'' st4;
                         st6 = st5\<lparr>worldMat :=
                                  arr_set (worldMat st5) (idx st5 x y) (toInt32 wd)\<rparr>
                     in markChunkDirtyForCell x y st6)
                  else st4)
            else st1)
      else st)"

definition pass2Cell :: "int \<Rightarrow> int \<Rightarrow> app \<Rightarrow> app" where
  "pass2Cell x y st =
     (case getMatByIndex (arr_get (worldMat st) (idx st x y)) st of
        None \<Rightarrow> st
      | Some mat \<Rightarrow>
          (let st1 = (if mid mat = ''ACID'' then fold acidStep (neighborCoords st x y) st
                      else st);
               st2 = (if mid mat = ''OIL'' then fold (oilStep x y) (neighborCoords st1 x y) st1
                      else st1);
               st3 = (if mid mat = ''SEED'' then fold (seedStep x y) (neighborCoords st2 x y) st2
                      else st2)
           in st3))"

definition pass1 :: "app \<Rightarrow> app" where
  "pass1 st = fold (\<lambda>y s. fold (\<lambda>x s'. pass1Cell (int x) (int y) s') [0..<gridW st] s)
                   (rev [0..<gridH st]) st"

definition pass2 :: "app \<Rightarrow> app" where
  "pass2 st = fold (\<lambda>y s. fold (\<lambda>x s'. pass2Cell (int x) (int y) s') [0..<gridW st] s)
                   [0..<gridH st] st"

definition simTick :: "app \<Rightarrow> app" where
  "simTick st = pass2 (pass1 st)"

subsection \<open>Brush painting\<close>

text \<open>
  A result is the state, or an error together with the state the aborted call leaves
  behind. \<open>foldE\<close> is a loop that an exception leaves.
\<close>

definition leftBehind :: "(error \<times> app) + app \<Rightarrow> app" where
  "leftBehind r = (case r of Inl (e, s) \<Rightarrow> s | Inr s \<Rightarrow> s)"

definition thrown :: "(error \<times> app) + app \<Rightarrow> error option" where
  "thrown r = (case r of Inl (e, s) \<Rightarrow> Some e | Inr s \<Rightarrow> None)"

fun foldE :: "('a \<Rightarrow> app \<Rightarrow> (error \<times> app) + app) \<Rightarrow> 'a list \<Rightarrow> app
    \<Rightarrow> (error \<times> app) + app" where
  "foldE f [] s = Inr s"
| "foldE f (x # xs) s = (case f x s of Inl e \<Rightarrow> Inl e | Inr s' \<Rightarrow> foldE f xs s')"

text \<open>
  \<open>dist\<close> is the double nearest to the square root. With a soft brush of radius 0 the
  source divides 0 by 0: the probability is \<open>NaN\<close> and the comparison with the sample
  fails. The sample of \<open>Math.random\<close> is a double. The write into \<open>App.worldMat\<close> throws a
  \<open>TypeError\<close> while the array is \<open>null\<close>; the lookups before it have run by then.
\<close>

definition brushCell :: "int \<Rightarrow> int \<Rightarrow> int \<Rightarrow> int \<Rightarrow> int \<Rightarrow> app \<Rightarrow> (error \<times> app) + app" where
  "brushCell radius gx gy dy dx st =
     (let x = gx + dx; y = gy + dy
      in if x < 0 \<or> y < 0 \<or> x \<ge> int (gridW st) \<or> y \<ge> int (gridH st) then Inr st
         else
           (let dist = rd64 (sqrt (real_of_int (dx * dx + dy * dy)))
            in if jlt (Num (real_of_int radius)) dist then Inr st
               else
                 (let (u, st1) = mathRandom st;
                      prob = (if brushSoft st1
                              then (if radius = 0 then NaN
                                    else clamp (jsub (Num 1) (jdivn dist (nat radius)))
                                           (jsLit 0.05) (Num 1))
                              else Num 1)
                  in if jlt (Num u) prob then
                       (let (a, st2) = getMatIndex (currentMaterial st1) st1;
                            (v, st3) = (if truthy a then (a, st2) else getMatIndex ''EMPTY'' st2)
                        in if \<not> worldAllocated st3 then Inl (TypeError, st3)
                           else
                             (let st4 = st3\<lparr>worldMat :=
                                          arr_set (worldMat st3) (idx st3 x y) (toInt32 v)\<rparr>;
                                  t = (case map_of (materials st4) (currentMaterial st4) of
                                         None \<Rightarrow> 20
                                       | Some m \<Rightarrow> (case mtemp m of
                                                      None \<Rightarrow> 20
                                                    | Some tm \<Rightarrow> if tm \<noteq> 0 then tm else 20));
                                  st5 = st4\<lparr>worldTemp :=
                                          arr_set (worldTemp st4) (idx st4 x y) (f32 (jsLit t))\<rparr>
                              in Inr (markChunkDirtyForCell x y st5)))
                     else Inr st1)))"

definition drawBrushAt :: "int \<Rightarrow> int \<Rightarrow> app \<Rightarrow> (error \<times> app) + app" where
  "drawBrushAt gx gy st =
     (let radius = brushSize st
      in foldE (\<lambda>dy s. foldE (\<lambda>dx s'. brushCell radius gx gy dy dx s') [- radius..radius] s)
               [- radius..radius] st)"

subsection \<open>Loading a saved world\<close>

text \<open>
  A parsed save file: \<open>w\<close>, \<open>h\<close>, the \<open>mat\<close> array of integers and the \<open>temp\<close> array, the
  arrays possibly missing. An entry of \<open>temp\<close> is a JSON number or \<open>null\<close> (what
  \<open>JSON.stringify\<close> writes for \<open>NaN\<close> and the infinities); stored into the \<open>Float32Array\<close>,
  \<open>null\<close> is 0 and a number is rounded. \<open>TypedArray.set\<close> copies the source over the start
  of the target and throws a \<open>RangeError\<close> when the source is longer.
\<close>

record snapshot =
  sw :: nat
  sh :: nat
  smat :: "int list option"
  stemp :: "real option list option"

definition tempEntry :: "real option \<Rightarrow> jsnum" where
  "tempEntry v = (case v of None \<Rightarrow> Num 0 | Some r \<Rightarrow> f32 (jsLit r))"

definition typedSet :: "'a list \<Rightarrow> 'a list \<Rightarrow> error + 'a list" where
  "typedSet target src =
     (if length src > length target then Inl RangeError
      else Inr (src @ drop (length src) target))"

definition setResolution :: "nat \<Rightarrow> nat \<Rightarrow> app \<Rightarrow> app" where
  "setResolution w h st =
     (if w = 0 \<or> h = 0 then st
      else snd (render (markAllDirty (allocateWorld w h (st\<lparr>gridW := w, gridH := h\<rparr>)))))"

definition loadWorld :: "snapshot \<Rightarrow> app \<Rightarrow> (error \<times> app) + app" where
  "loadWorld p st =
     (if sw p = 0 \<or> sh p = 0 \<or> smat p = None then Inl (InvalidSaveFile, st)
      else
        (let st1 = setResolution (sw p) (sh p) st;
             st2 = allocateWorld (sw p) (sh p) st1;
             m = (case smat p of Some ms \<Rightarrow> ms | None \<Rightarrow> [])
         in case typedSet (worldMat st2) (map wrap32 m) of
              Inl e \<Rightarrow> Inl (e, st2)
            | Inr wm \<Rightarrow>
                (let st3 = st2\<lparr>worldMat := wm\<rparr>;
                     src = (case stemp p of
                              Some ts \<Rightarrow> map tempEntry ts
                            | None \<Rightarrow> replicate (sw p * sh p) (Num 0))
                 in case typedSet (worldTemp st3) src of
                      Inl e \<Rightarrow> Inl (e, st3)
                    | Inr wt \<Rightarrow>
                        Inr (snd (render (markAllDirty (st3\<lparr>worldTemp := wt\<rparr>)))))))"

subsection \<open>Auxiliary notions\<close>

text \<open>The flat index of chunk \<open>(cx, cy)\<close> in \<open>dirtyChunks\<close>.\<close>

definition cidx :: "app \<Rightarrow> nat \<times> nat \<Rightarrow> nat" where
  "cidx st c = snd c * chunksX st + fst c"

subsection \<open>Scenarios\<close>

text \<open>
  A registry that also has \<open>ACID\<close> and \<open>METAL\<close>, and a 2 by 1 world with an acid cell
  next to a metal cell; \<open>mr\<close> is the sample sequence of \<open>Math.random\<close>.
\<close>

definition reactiveMaterials :: "(string \<times> material) list" where
  "reactiveMaterials =
     prepareMaterials (defaultMaterials @
       [(''ACID'', mk_material ''ACID''), (''METAL'', (mk_material ''METAL'')\<lparr>solid := True\<rparr>)]) []"

definition acidWorld :: "(nat \<Rightarrow> real) \<Rightarrow> app" where
  "acidWorld mr = setMatAt 1 0 ''METAL'' (setMatAt 0 0 ''ACID''
                    (allocateWorld 2 1 (initApp reactiveMaterials 12345 mr)))"

text \<open>A column of two cells, sand above water, with the default registry.\<close>

definition sandOnWater :: app where
  "sandOnWater = setMatAt 0 1 ''WATER'' (setMatAt 0 0 ''SAND''
     (allocateWorld 1 2 (initApp (prepareMaterials defaultMaterials []) 12345 (\<lambda>_. 0))))"

text \<open>A freshly allocated 10 by 10 world with one sand cell at \<open>(5, 0)\<close>, default registry.\<close>

definition sandWorld :: "32 word \<Rightarrow> (nat \<Rightarrow> real) \<Rightarrow> app" where
  "sandWorld seed mr = setMatAt 5 0 ''SAND''
     (allocateWorld 10 10 (initApp (prepareMaterials defaultMaterials []) seed mr))"

text \<open>The part of the state of \<open>sandWorld\<close> that the ticks leave alone.\<close>

definition stuck :: "app \<Rightarrow> bool" where
  "stuck st = (materials st = prepareMaterials defaultMaterials [] \<and> gridW st = 10 \<and> gridH st = 10
               \<and> worldMat st = (replicate 100 (- 1))[5 := 1] \<and> \<not> toggleTemp st)"

subsection \<open>Registry index and cache consistency\<close>

text \<open>
  The registry index of an id is its position in \<open>Object.keys(App.materials)\<close>. The cache
  \<open>matIndexMap\<close> is consistent when every id it holds maps to its registry index.
\<close>

fun keyIndex :: "'a \<Rightarrow> 'a list \<Rightarrow> nat option" where
  "keyIndex k [] = None"
| "keyIndex k (x # xs) = (if x = k then Some 0 else map_option Suc (keyIndex k xs))"

definition registryIndex :: "string \<Rightarrow> app \<Rightarrow> int option" where
  "registryIndex k st = map_option int (keyIndex k (map fst (materials st)))"

definition cacheOk :: "app \<Rightarrow> bool" where
  "cacheOk st = list_all (\<lambda>k. map_of (matIndexMap st) k = registryIndex k st)
                         (map fst (matIndexMap st))"

text \<open>A 1 by 1 world holding sand, default registry.\<close>

definition sandCell :: app where
  "sandCell = setMatAt 0 0 ''SAND''
     (allocateWorld 1 1 (initApp (prepareMaterials defaultMaterials []) 12345 (\<lambda>_. 0)))"

subsection \<open>Reach of the brush\<close>

text \<open>
  \<open>inReach st gx gy i\<close>: the flat index \<open>i\<close> is the cell \<open>(x, y)\<close> of the grid, inside
  \<open>[0, gridW) x [0, gridH)\<close>, no further than the brush radius from the centre \<open>(gx, gy)\<close>
  in either coordinate. \<open>brushFrame\<close> is the invariant of the brush loops on an allocated
  world: array lengths are kept and only cells in reach differ from the state the brush
  started on.
\<close>

definition inReach :: "app \<Rightarrow> int \<Rightarrow> int \<Rightarrow> nat \<Rightarrow> bool" where
  "inReach st gx gy i =
     (\<exists>x y. 0 \<le> x \<and> x < int (gridW st) \<and> 0 \<le> y \<and> y < int (gridH st) \<and> int i = idx st x y
            \<and> \<bar>x - gx\<bar> \<le> brushSize st \<and> \<bar>y - gy\<bar> \<le> brushSize st)"

definition brushFrame :: "app \<Rightarrow> int \<Rightarrow> int \<Rightarrow> app \<Rightarrow> bool" where
  "brushFrame st gx gy s =
     (gridW s = gridW st \<and> gridH s = gridH st \<and> worldAllocated s
      \<and> length (worldMat s) = length (worldMat st) \<and> length (worldTemp s) = length (worldTemp st)
      \<and> (\<forall>i < length (worldMat st). worldMat s ! i \<noteq> worldMat st ! i \<longrightarrow> inReach st gx gy i)
      \<and> (\<forall>i < length (worldTemp st). worldTemp s ! i \<noteq> worldTemp st ! i \<longrightarrow> inReach st gx gy i))"

text \<open>A 1 by 1 world with a brush of radius 2, default registry.\<close>

definition brushWorld :: app where
  "brushWorld = (allocateWorld 1 1
      (initApp (prepareMaterials defaultMaterials []) 12345 (\<lambda>_. 0)))\<lparr>brushSize := 2\<rparr>"

text \<open>
  The state in which \<open>boot\<close> attaches the canvas listeners: the registry is still empty
  and \<open>allocateWorld\<close> has not run, so the world arrays are \<open>null\<close>.
\<close>

definition bootState :: app where
  "bootState = initApp [] 12345 (\<lambda>_. 0)"

subsection \<open>Temperature diffusion, in the words of the specification and of the code\<close>

text \<open>
  \<open>claimedDiffusion\<close> follows the specification: \<open>t + 0.1 * (m - t)\<close> with \<open>m\<close> the mean
  of the temperatures of the existing orthogonal neighbours (meaningful where the cell has a
  neighbour). \<open>meanWithSelf\<close> is the mean the source computes: the cell's own temperature
  counts as one more sample.
\<close>

definition neighbourTemps :: "app \<Rightarrow> int \<Rightarrow> int \<Rightarrow> jsnum list" where
  "neighbourTemps st x y = map (\<lambda>n. tempAt st (idx st (fst n) (snd n))) (neighborCoords st x y)"

definition claimedDiffusion :: "app \<Rightarrow> int \<Rightarrow> int \<Rightarrow> jsnum" where
  "claimedDiffusion st x y =
     (let t = tempAt st (idx st x y);
          ns = neighbourTemps st x y;
          m = jdivn (foldl jadd (Num 0) ns) (length ns)
      in f32 (jadd t (jmul (jsLit 0.1) (jsub m t))))"

definition meanWithSelf :: "app \<Rightarrow> int \<Rightarrow> int \<Rightarrow> jsnum" where
  "meanWithSelf st x y =
     (let ns = neighbourTemps st x y
      in jdivn (foldl jadd (tempAt st (idx st x y)) ns) (Suc (length ns)))"

text \<open>
  \<open>diffused\<close> is the value the source stores for the cell: \<open>t + (avg - t) * 0.1\<close> in double
  arithmetic with \<open>avg\<close> the mean that counts the cell itself, rounded into the
  \<open>Float32Array\<close>. \<open>afterThresholds\<close> is what the three threshold tests leave in the cell
  when they read the value \<open>v\<close> (\<open>stone\<close>: whether \<open>STONE\<close> is registered).
\<close>

definition diffused :: "app \<Rightarrow> int \<Rightarrow> int \<Rightarrow> jsnum" where
  "diffused st x y =
     (let t = tempAt st (idx st x y)
      in f32 (jadd t (jmul (jsub (meanWithSelf st x y) t) (jsLit 0.1))))"

definition afterThresholds :: "material \<Rightarrow> bool \<Rightarrow> jsnum \<Rightarrow> jsnum" where
  "afterThresholds mat stone v =
     (let v1 = (if mid mat = ''WATER'' \<and> jlt (Num 100) v then f32 (jadd v (Num 10)) else v);
          v2 = (if mid mat = ''LAVA'' \<and> jlt v1 (Num 500) \<and> stone then Num 100 else v1)
      in if flammable mat \<and> jlt (Num 300) v2 then Num 800 else v2)"

text \<open>
  The cells in the order in which pass 1 visits them: rows bottom-up, each row left to right.
\<close>

definition cellOrder :: "app \<Rightarrow> (int \<times> int) list" where
  "cellOrder st = concat (map (\<lambda>y. map (\<lambda>x. (int x, int y)) [0..<gridW st]) (rev [0..<gridH st]))"

text \<open>
  \<open>sameTempsExcept i s s'\<close>: from \<open>s\<close> to \<open>s'\<close> the grid size, the temperature switch and
  every temperature but the one at index \<open>i\<close> are kept. \<open>tempGrid s s'\<close>: the grid size
  and all temperatures are kept.
\<close>

definition sameTempsExcept :: "int \<Rightarrow> app \<Rightarrow> app \<Rightarrow> bool" where
  "sameTempsExcept i s s' =
     (gridW s' = gridW s \<and> gridH s' = gridH s \<and> toggleTemp s' = toggleTemp s
      \<and> length (worldTemp s') = length (worldTemp s)
      \<and> (\<forall>j. j \<noteq> i \<longrightarrow> arr_get (worldTemp s') j = arr_get (worldTemp s) j))"

definition tempGrid :: "app \<Rightarrow> app \<Rightarrow> bool" where
  "tempGrid s s' = (gridW s' = gridW s \<and> gridH s' = gridH s \<and> worldTemp s' = worldTemp s)"

text \<open>
  A 2 by 1 world of two stone cells at temperatures 0 and 20, loaded from a save file, with
  temperature simulation switched on.
\<close>

definition stoneSnapshot :: snapshot where
  "stoneSnapshot = \<lparr>sw = 2, sh = 1, smat = Some [4, 4], stemp = Some [Some 0, Some 20]\<rparr>"

definition twoStones :: app where
  "twoStones =
     (case loadWorld stoneSnapshot (initApp (prepareMaterials defaultMaterials []) 12345 (\<lambda>_. 0)) of
        Inl (e, s) \<Rightarrow> s
      | Inr s \<Rightarrow> s\<lparr>toggleTemp := True\<rparr>)"

text \<open>The same world with a wall (index 6) in place of the second stone.\<close>

definition stoneWallSnapshot :: snapshot where
  "stoneWallSnapshot = \<lparr>sw = 2, sh = 1, smat = Some [4, 6], stemp = Some [Some 0, Some 20]\<rparr>"

definition stoneWall :: app where
  "stoneWall =
     (case loadWorld stoneWallSnapshot
             (initApp (prepareMaterials defaultMaterials []) 12345 (\<lambda>_. 0)) of
        Inl (e, s) \<Rightarrow> s
      | Inr s \<Rightarrow> s\<lparr>toggleTemp := True\<rparr>)"

subsection \<open>Loading: the fill value and a short save file\<close>




subsection \<open>Writes of an unregistered material\<close>

text \<open>
  The invariant of the brush loops when the selected material is not registered: the cache
  stays consistent and every cell of \<open>worldMat\<close> holds what it held in \<open>st\<close> or the
  registry index of \<open>EMPTY\<close>.
\<close>

definition emptiedOnly :: "app \<Rightarrow> app \<Rightarrow> bool" where
  "emptiedOnly st s =
     (cacheOk s \<and> materials s = materials st \<and> currentMaterial s = currentMaterial st
      \<and> length (worldMat s) = length (worldMat st)
      \<and> list_all2 (\<lambda>a b. b = a \<or> b = toInt32 (registryIndex ''EMPTY'' st))
            (worldMat st) (worldMat s))"

section \<open>Properties\<close>

subsection \<open>Frame facts\<close>

lemma getMatIndex_frame: "\<exists>m. snd (getMatIndex k st) = st\<lparr>matIndexMap := m\<rparr>"
proof (cases "map_of (matIndexMap st) k")
  case None
  then show ?thesis by (auto simp: getMatIndex_def Let_def)
next
  case (Some i)
  then have "snd (getMatIndex k st) = st" by (simp add: getMatIndex_def)
  then show ?thesis by (intro exI [of _ "matIndexMap st"]) simp
qed

lemma getMatIndex_fields [simp]:
  "gridW (snd (getMatIndex k st)) = gridW st"
  "gridH (snd (getMatIndex k st)) = gridH st"
  "worldMat (snd (getMatIndex k st)) = worldMat st"
  "worldTemp (snd (getMatIndex k st)) = worldTemp st"
  "worldMeta (snd (getMatIndex k st)) = worldMeta st"
  "chunksX (snd (getMatIndex k st)) = chunksX st"
  "chunksY (snd (getMatIndex k st)) = chunksY st"
  "dirtyChunks (snd (getMatIndex k st)) = dirtyChunks st"
  "worldAllocated (snd (getMatIndex k st)) = worldAllocated st"
  "materials (snd (getMatIndex k st)) = materials st"
  "rng (snd (getMatIndex k st)) = rng st"
  "mrand (snd (getMatIndex k st)) = mrand st"
  "mrandPos (snd (getMatIndex k st)) = mrandPos st"
  "toggleTemp (snd (getMatIndex k st)) = toggleTemp st"
  "brushSize (snd (getMatIndex k st)) = brushSize st"
  "brushSoft (snd (getMatIndex k st)) = brushSoft st"
  "currentMaterial (snd (getMatIndex k st)) = currentMaterial st"
  using getMatIndex_frame [of k st] by auto

lemma length_arr_set [simp]: "length (arr_set xs i v) = length xs"
  by (simp add: arr_set_def)

lemma markChunk_fields [simp]:
  "gridW (markChunkDirtyForCell x y st) = gridW st"
  "gridH (markChunkDirtyForCell x y st) = gridH st"
  "worldMat (markChunkDirtyForCell x y st) = worldMat st"
  "worldTemp (markChunkDirtyForCell x y st) = worldTemp st"
  "worldMeta (markChunkDirtyForCell x y st) = worldMeta st"
  "chunksX (markChunkDirtyForCell x y st) = chunksX st"
  "chunksY (markChunkDirtyForCell x y st) = chunksY st"
  "worldAllocated (markChunkDirtyForCell x y st) = worldAllocated st"
  "materials (markChunkDirtyForCell x y st) = materials st"
  "matIndexMap (markChunkDirtyForCell x y st) = matIndexMap st"
  "rng (markChunkDirtyForCell x y st) = rng st"
  "mrand (markChunkDirtyForCell x y st) = mrand st"
  "mrandPos (markChunkDirtyForCell x y st) = mrandPos st"
  "toggleTemp (markChunkDirtyForCell x y st) = toggleTemp st"
  "brushSize (markChunkDirtyForCell x y st) = brushSize st"
  "brushSoft (markChunkDirtyForCell x y st) = brushSoft st"
  "currentMaterial (markChunkDirtyForCell x y st) = currentMaterial st"
  "length (dirtyChunks (markChunkDirtyForCell x y st)) = length (dirtyChunks st)"
  by (simp_all add: markChunkDirtyForCell_def Let_def)

lemma mathRandom_fields [simp]:
  "gridW (snd (mathRandom st)) = gridW st"
  "gridH (snd (mathRandom st)) = gridH st"
  "worldMat (snd (mathRandom st)) = worldMat st"
  "worldTemp (snd (mathRandom st)) = worldTemp st"
  "worldMeta (snd (mathRandom st)) = worldMeta st"
  "chunksX (snd (mathRandom st)) = chunksX st"
  "chunksY (snd (mathRandom st)) = chunksY st"
  "dirtyChunks (snd (mathRandom st)) = dirtyChunks st"
  "worldAllocated (snd (mathRandom st)) = worldAllocated st"
  "materials (snd (mathRandom st)) = materials st"
  "matIndexMap (snd (mathRandom st)) = matIndexMap st"
  "brushSoft (snd (mathRandom st)) = brushSoft st"
  "brushSize (snd (mathRandom st)) = brushSize st"
  "currentMaterial (snd (mathRandom st)) = currentMaterial st"
  by (simp_all add: mathRandom_def)

lemma allocateWorld_chunks:
  "chunksX (allocateWorld w h st) = max 1 ((w + 15) div 16)"
  "chunksY (allocateWorld w h st) = max 1 ((h + 15) div 16)"
  "gridW (allocateWorld w h st) = w"
  "gridH (allocateWorld w h st) = h"
  "dirtyChunks (allocateWorld w h st)
     = replicate (max 1 ((w + 15) div 16) * max 1 ((h + 15) div 16)) 1"
  by (simp_all add: allocateWorld_def Let_def split_def markAllDirty_def chunkSize_def
        map_replicate_const add.commute)

lemma cidx_dirty [simp]: "cidx (st\<lparr>dirtyChunks := d\<rparr>) = cidx st"
  by (simp add: fun_eq_iff cidx_def)

lemma renderChunks_frame:
  "chunksX (snd (renderChunks cs st)) = chunksX st
   \<and> chunksY (snd (renderChunks cs st)) = chunksY st
   \<and> gridW (snd (renderChunks cs st)) = gridW st
   \<and> gridH (snd (renderChunks cs st)) = gridH st
   \<and> length (dirtyChunks (snd (renderChunks cs st))) = length (dirtyChunks st)"
  by (induction cs arbitrary: st) (simp_all add: Let_def split_def)

lemma arr_get_int: "arr_get xs (int n) = (if n < length xs then Some (xs ! n) else None)"
  by (simp add: arr_get_def)

lemma arr_set_int: "arr_set xs (int n) v = (if n < length xs then xs[n := v] else xs)"
  by (simp add: arr_set_def)

lemma chunkFlagSet_cidx:
  "chunkFlagSet st c = (cidx st c < length (dirtyChunks st) \<and> dirtyChunks st ! cidx st c \<noteq> 0)"
  unfolding chunkFlagSet_def cidx_def arr_get_int by simp

lemma chunkFlagSet_clear:
  "chunkFlagSet (st\<lparr>dirtyChunks := arr_set (dirtyChunks st) (int (cidx st c)) 0\<rparr>) c'
     = (chunkFlagSet st c' \<and> cidx st c' \<noteq> cidx st c)"
  unfolding chunkFlagSet_cidx arr_set_int by (auto simp: cidx_def nth_list_update)

lemma renderChunks_filter:
  "distinct (map (cidx st) cs) \<Longrightarrow> fst (renderChunks cs st) = filter (chunkFlagSet st) cs"
proof (induction cs arbitrary: st)
  case Nil
  then show ?case by simp
next
  case (Cons c cs)
  let ?st1 = "st\<lparr>dirtyChunks := arr_set (dirtyChunks st) (int (cidx st c)) 0\<rparr>"
  have d: "distinct (map (cidx ?st1) cs)"
    using Cons.prems by simp
  have "cidx st c' \<noteq> cidx st c" if "c' \<in> set cs" for c'
    using that Cons.prems by (auto simp: image_iff)
  then have same: "filter (chunkFlagSet ?st1) cs = filter (chunkFlagSet st) cs"
    by (intro filter_cong) (simp_all add: chunkFlagSet_clear)
  show ?case
  proof (cases "chunkFlagSet st c")
    case True
    then show ?thesis
      using Cons.IH [OF d] same by (simp add: split_def Let_def cidx_def)
  next
    case False
    then show ?thesis
      using Cons.IH [of st] Cons.prems by simp
  qed
qed

lemma renderChunks_clears:
  "c' \<in> set cs \<or> \<not> chunkFlagSet st c' \<Longrightarrow> \<not> chunkFlagSet (snd (renderChunks cs st)) c'"
proof (induction cs arbitrary: st)
  case Nil
  then show ?case by simp
next
  case (Cons c cs)
  let ?st1 = "st\<lparr>dirtyChunks := arr_set (dirtyChunks st) (int (cidx st c)) 0\<rparr>"
  show ?case
  proof (cases "chunkFlagSet st c")
    case True
    have "c' \<in> set cs \<or> \<not> chunkFlagSet ?st1 c'"
      using Cons.prems by (auto simp: chunkFlagSet_clear)
    from Cons.IH [OF this] True show ?thesis
      by (simp add: split_def Let_def cidx_def)
  next
    case False
    have "c' \<in> set cs \<or> \<not> chunkFlagSet st c'"
      using Cons.prems False by auto
    from Cons.IH [OF this] False show ?thesis by simp
  qed
qed

lemma renderChunks_none: "\<forall>c \<in> set cs. \<not> chunkFlagSet st c \<Longrightarrow> renderChunks cs st = ([], st)"
  by (induction cs) simp_all

lemma render_twice: "fst (render (snd (render st))) = []"
proof -
  have cc: "chunkCoords (snd (render st)) = chunkCoords st"
    using renderChunks_frame [of "chunkCoords st" st] by (simp add: render_def chunkCoords_def)
  have "\<forall>c \<in> set (chunkCoords st). \<not> chunkFlagSet (snd (render st)) c"
    using renderChunks_clears [of _ "chunkCoords st" st] by (auto simp: render_def)
  then show ?thesis
    using renderChunks_none [of "chunkCoords st" "snd (render st)"] cc
    by (simp add: render_def)
qed

lemma chunkCoords_cidx: "map (cidx st) (chunkCoords st) = [0..<chunksY st * chunksX st]"
proof -
  have row: "map (\<lambda>cx. cy * n + cx) [0..<n] = [cy * n..<cy * n + n]" for cy n :: nat
    using map_add_upt [of "cy * n" n] by (simp add: add.commute)
  have "concat (map (\<lambda>cy. map (\<lambda>cx. cy * n + cx) [0..<n]) [0..<m]) = [0..<m * n]" for m n :: nat
  proof (induction m)
    case 0
    then show ?case by simp
  next
    case (Suc m)
    have "[0..<Suc m * n] = [0..<m * n] @ [m * n..<m * n + n]"
      using upt_add_eq_append [of 0 "m * n" n] by (simp add: add.commute)
    with Suc show ?case by (simp add: row)
  qed
  then show ?thesis
    by (simp add: chunkCoords_def cidx_def map_concat comp_def)
qed

lemma chunkCoords_set: "set (chunkCoords st) = {c. fst c < chunksX st \<and> snd c < chunksY st}"
  by (auto simp: chunkCoords_def)

lemma cidx_bound:
  assumes "fst c < chunksX st" "snd c < chunksY st"
  shows "cidx st c < chunksY st * chunksX st"
proof -
  have "cidx st c < snd c * chunksX st + chunksX st"
    using assms by (simp add: cidx_def)
  also have "\<dots> = Suc (snd c) * chunksX st" by simp
  also have "\<dots> \<le> chunksY st * chunksX st"
    using assms(2) by (intro mult_le_mono1) simp
  finally show ?thesis .
qed

lemma render_filter: "fst (render st) = filter (chunkFlagSet st) (chunkCoords st)"
  unfolding render_def by (rule renderChunks_filter) (simp add: chunkCoords_cidx)

lemma render_all_dirty:
  assumes "dirtyChunks st = replicate (chunksY st * chunksX st) 1"
  shows "fst (render st) = chunkCoords st"
proof -
  have "chunkFlagSet st c" if "c \<in> set (chunkCoords st)" for c
    using that cidx_bound [of c st] assms by (simp add: chunkCoords_set chunkFlagSet_cidx)
  then show ?thesis by (simp add: render_filter)
qed

lemma filter_eq_self: "distinct xs \<Longrightarrow> x \<in> set xs \<Longrightarrow> filter (\<lambda>c. c = x) xs = [x]"
  by (induction xs) (auto simp: filter_empty_conv)

lemma filter_cidx_single:
  assumes "c0 \<in> set (chunkCoords st)"
  shows "filter (\<lambda>c. cidx st c = cidx st c0) (chunkCoords st) = [c0]"
proof -
  have d: "distinct (map (cidx st) (chunkCoords st))" by (simp add: chunkCoords_cidx)
  then have inj: "inj_on (cidx st) (set (chunkCoords st))" and dc: "distinct (chunkCoords st)"
    by (simp_all add: distinct_map)
  have "filter (\<lambda>c. cidx st c = cidx st c0) (chunkCoords st) = filter (\<lambda>c. c = c0) (chunkCoords st)"
    using inj assms by (intro filter_cong) (auto dest: inj_onD)
  also have "\<dots> = [c0]"
    using dc assms by (rule filter_eq_self)
  finally show ?thesis .
qed

lemma setMatAt_fields:
  "chunksX (setMatAt x y k st) = chunksX st"
  "chunksY (setMatAt x y k st) = chunksY st"
  "gridW (setMatAt x y k st) = gridW st"
  "gridH (setMatAt x y k st) = gridH st"
  by (simp_all add: setMatAt_def Let_def split_def)

lemma setMatAt_dirty:
  assumes "0 \<le> x" "x < int (gridW st)" "0 \<le> y" "y < int (gridH st)"
  shows "dirtyChunks (setMatAt x y k st) = dirtyChunks (markChunkDirtyForCell x y st)"
  using assms by (simp add: setMatAt_def Let_def split_def markChunkDirtyForCell_def)

lemma mark_dirty_in_range:
  assumes "0 \<le> x" "0 \<le> y" "nat (x div 16) < chunksX st" "nat (y div 16) < chunksY st"
  shows "dirtyChunks (markChunkDirtyForCell x y st)
           = arr_set (dirtyChunks st) (int (cidx st (nat (x div 16), nat (y div 16)))) 1"
proof -
  have "0 \<le> x div 16" "0 \<le> y div 16"
    using assms by (simp_all add: pos_imp_zdiv_nonneg_iff)
  moreover from this have "x div 16 < int (chunksX st)" "y div 16 < int (chunksY st)"
    using assms by linarith+
  ultimately show ?thesis
    by (simp add: markChunkDirtyForCell_def Let_def chunkSize_def cidx_def)
qed

lemma chunk_of_cell_bound:
  assumes "0 \<le> x" "x < int w"
  shows "nat (x div 16) < max 1 ((w + 15) div 16)"
proof -
  have "nat (x div 16) = nat x div 16"
    using assms by (simp add: nat_div_distrib)
  moreover have "nat x < w" using assms by simp
  ultimately show ?thesis by simp
qed

subsection \<open>Dirty-chunk tracking\<close>

text \<open>
  C8. After \<open>allocateWorld\<close> every chunk flag is set and the first \<open>render\<close> repaints
  every chunk; \<open>render\<close> clears the flags it collects, so a second \<open>render\<close> repaints
  nothing; after one in-bounds \<open>setMatAt\<close> on the clean world the next \<open>render\<close> repaints
  exactly the chunk holding that cell, once, and the one after it repaints nothing.
\<close>

theorem dirty_tracking:
  assumes "0 \<le> x" "x < int w" "0 \<le> y" "y < int h"
  shows "dirtyChunks (allocateWorld w h st0)
           = replicate (chunksX (allocateWorld w h st0) * chunksY (allocateWorld w h st0)) 1
       \<and> fst (render (allocateWorld w h st0)) = chunkCoords (allocateWorld w h st0)
       \<and> fst (render (snd (render (allocateWorld w h st0)))) = []
       \<and> fst (render (setMatAt x y k (snd (render (allocateWorld w h st0)))))
           = [(nat (x div 16), nat (y div 16))]
       \<and> fst (render (snd (render (setMatAt x y k (snd (render (allocateWorld w h st0))))))) = []"
proof -
  let ?st = "allocateWorld w h st0"
  let ?s1 = "snd (render ?st)"
  let ?s2 = "setMatAt x y k ?s1"
  let ?c0 = "(nat (x div 16), nat (y div 16))"
  have all1: "dirtyChunks ?st = replicate (chunksX ?st * chunksY ?st) 1"
    by (simp add: allocateWorld_chunks)
  then have a: "fst (render ?st) = chunkCoords ?st"
    by (intro render_all_dirty) (simp add: mult.commute)
  have fr: "chunksX ?s1 = chunksX ?st" "chunksY ?s1 = chunksY ?st" "gridW ?s1 = w" "gridH ?s1 = h"
      "length (dirtyChunks ?s1) = chunksX ?st * chunksY ?st"
    using renderChunks_frame [of "chunkCoords ?st" ?st] all1
    by (simp_all add: render_def allocateWorld_chunks)
  have cX: "nat (x div 16) < chunksX ?s1" and cY: "nat (y div 16) < chunksY ?s1"
    using chunk_of_cell_bound assms by (simp_all add: fr allocateWorld_chunks)
  have cc: "chunkCoords ?s2 = chunkCoords ?s1"
    by (simp add: chunkCoords_def setMatAt_fields)
  have cid: "cidx ?s2 = cidx ?s1"
    by (simp add: fun_eq_iff cidx_def setMatAt_fields)
  have c0in: "?c0 \<in> set (chunkCoords ?s1)"
    using cX cY by (simp add: chunkCoords_set)
  have clean: "\<not> chunkFlagSet ?s1 c" if "c \<in> set (chunkCoords ?st)" for c
    using that renderChunks_clears [of c "chunkCoords ?st" ?st] by (simp add: render_def)
  have d2: "dirtyChunks ?s2 = arr_set (dirtyChunks ?s1) (int (cidx ?s1 ?c0)) 1"
    using assms cX cY by (simp add: setMatAt_dirty fr mark_dirty_in_range)
  have c0lt: "cidx ?s1 ?c0 < length (dirtyChunks ?s1)"
    using cidx_bound [of ?c0 ?s1] cX cY by (simp add: fr mult.commute)
  have flag2: "chunkFlagSet ?s2 c = (cidx ?s1 c = cidx ?s1 ?c0)" if "c \<in> set (chunkCoords ?s1)" for c
  proof -
    have "\<not> chunkFlagSet ?s1 c"
      using that clean by (simp add: chunkCoords_def fr)
    then show ?thesis
      using c0lt unfolding chunkFlagSet_cidx cid d2 arr_set_int
      by (auto simp: nth_list_update)
  qed
  have "fst (render ?s2) = filter (chunkFlagSet ?s2) (chunkCoords ?s1)"
    by (simp add: render_filter cc)
  also have "\<dots> = filter (\<lambda>c. cidx ?s1 c = cidx ?s1 ?c0) (chunkCoords ?s1)"
    by (intro filter_cong) (simp_all add: flag2)
  also have "\<dots> = [?c0]"
    using c0in by (rule filter_cidx_single)
  finally have c: "fst (render ?s2) = [?c0]" .
  show ?thesis using all1 a c render_twice by simp
qed

theorem dirty_tracking_witness:
  "(0::int) \<le> 17 \<and> (17::int) < int 20 \<and> (0::int) \<le> 3 \<and> (3::int) < int 20
   \<and> fst (render (setMatAt 17 3 ''SAND''
        (snd (render (allocateWorld 20 20
           (initApp (prepareMaterials defaultMaterials []) 12345 (\<lambda>_. 0))))))) = [(1, 0)]"
proof -
  have h: "(0::int) \<le> 17" "(17::int) < int 20" "(0::int) \<le> 3" "(3::int) < int 20"
    by simp_all
  show ?thesis
    using h dirty_tracking [OF h, of "initApp (prepareMaterials defaultMaterials []) 12345 (\<lambda>_. 0)" "''SAND''"]
    by simp
qed

subsection \<open>World allocation\<close>

text \<open>
  C1. With the default registry \<open>EMPTY\<close> has index 0, and \<open>getMatIndex('EMPTY') || -1\<close>
  is then \<open>-1\<close>: a freshly allocated world holds \<open>-1\<close> in every cell, which is neither the
  index of \<open>EMPTY\<close> nor an index of any registered material.
\<close>

theorem allocate_fills_minus_one:
  "worldMat (allocateWorld 2 2 (initApp (prepareMaterials defaultMaterials []) 12345 (\<lambda>_. 0)))
     = [- 1, - 1, - 1, - 1]
   \<and> fst (getMatIndex ''EMPTY''
        (allocateWorld 2 2 (initApp (prepareMaterials defaultMaterials []) 12345 (\<lambda>_. 0))))
     = Some 0
   \<and> getMatByIndex (Some (- 1))
        (allocateWorld 2 2 (initApp (prepareMaterials defaultMaterials []) 12345 (\<lambda>_. 0)))
     = None"
  by code_simp

subsection \<open>Determinism of the tick\<close>

text \<open>
  C2. Pass 2 draws from \<open>Math.random\<close>, not from the seeded generator: two runs of one
  tick from the same grid, temperatures and seed, which differ only in what \<open>Math.random\<close>
  returns, end with different \<open>worldMat\<close> arrays (the metal cell corroded to stone, index 4,
  or left as metal, index 6).
\<close>

theorem tick_depends_on_Math_random:
  "worldMat (acidWorld (\<lambda>_. 0)) = worldMat (acidWorld (\<lambda>_. 1 / 2))
   \<and> worldTemp (acidWorld (\<lambda>_. 0)) = worldTemp (acidWorld (\<lambda>_. 1 / 2))
   \<and> rng (acidWorld (\<lambda>_. 0)) = rng (acidWorld (\<lambda>_. 1 / 2))
   \<and> worldMat (simTick (acidWorld (\<lambda>_. 0))) = [5, 4]
   \<and> worldMat (simTick (acidWorld (\<lambda>_. 1 / 2))) = [5, 6]"
  by code_simp

subsection \<open>Granular fall\<close>

text \<open>
  C3. The downward move writes the sand's index into the cell below and the index of
  \<open>EMPTY\<close> into the source; what the cell below held is lost. Sand above water: after one
  tick (temperature off, no reaction applicable) the column is empty over sand and the number
  of water cells has gone from 1 to 0.
\<close>

theorem sand_fall_destroys_water:
  "worldMat sandOnWater = [1, 2] \<and> worldMat (simTick sandOnWater) = [0, 1]
   \<and> count_list (worldMat sandOnWater) 2 = 1
   \<and> count_list (worldMat (simTick sandOnWater)) 2 = 0"
  by code_simp

subsection \<open>The falling-sand scenario\<close>

lemma prepared_default:
  "prepareMaterials defaultMaterials [] =
     [(''EMPTY'', mk_material ''EMPTY''),
      (''SAND'', (mk_material ''SAND'')\<lparr>flow := True\<rparr>),
      (''WATER'', (mk_material ''WATER'')\<lparr>flow := True\<rparr>),
      (''FIRE'', (mk_material ''FIRE'')\<lparr>isGas := True, mtemp := Some 800\<rparr>),
      (''STONE'', (mk_material ''STONE'')\<lparr>solid := True\<rparr>),
      (''ERASER'', (mk_material ''ERASER'')\<lparr>isTool := True\<rparr>),
      (''WALL'', (mk_material ''WALL'')\<lparr>solid := True\<rparr>)]"
  by (simp add: prepareMaterials_def defaultMaterials_def)

lemma stuck_cell:
  assumes "stuck st" "x < 10" "y < 10"
  shows "arr_get (worldMat st) (idx st (int x) (int y))
           = Some (if x = 5 \<and> y = 0 then 1 else - 1)"
proof -
  have lt: "y * 10 + x < 100" using assms by simp
  have eq: "y * 10 + x = 5 \<longleftrightarrow> x = 5 \<and> y = 0" using assms(2,3) by presburger
  have i: "idx st (int x) (int y) = int (y * 10 + x)"
    using assms by (simp add: idx_def stuck_def)
  have wm: "worldMat st = (replicate 100 (- 1))[5 := 1]"
    using assms(1) by (simp add: stuck_def)
  show ?thesis
    unfolding i arr_get_int wm using lt eq by (simp add: nth_list_update)
qed

lemma stuck_no_material: "stuck st \<Longrightarrow> getMatByIndex (Some (- 1)) st = None"
  by (simp add: stuck_def getMatByIndex_def prepared_default)

lemma stuck_sand:
  "stuck st \<Longrightarrow> getMatByIndex (Some 1) st = Some ((mk_material ''SAND'')\<lparr>flow := True\<rparr>)"
  by (simp add: stuck_def getMatByIndex_def prepared_default)

lemma stuck_rng [simp]: "stuck (snd (rngNext st)) = stuck st"
  by (simp add: stuck_def rngNext_def Let_def)

lemma stuck_neighbour:
  assumes "stuck st" "0 \<le> x" "x < 10" "0 \<le> y" "y < 10" "(x, y) \<noteq> (5, 0)"
  shows "nonSolid (getMatByIndex (arr_get (worldMat st) (idx st x y)) st) = False"
proof -
  have "arr_get (worldMat st) (idx st (int (nat x)) (int (nat y))) = Some (- 1)"
    using assms stuck_cell [of st "nat x" "nat y"] by auto
  then show ?thesis
    using assms by (simp add: stuck_no_material nonSolid_def)
qed

lemma stuck_pass1Cell:
  assumes "stuck st" "x < 10" "y < 10"
  shows "stuck (pass1Cell (int x) (int y) st)"
proof (cases "x = 5 \<and> y = 0")
  case False
  then show ?thesis
    using assms stuck_cell [OF assms] by (auto simp: pass1Cell_def)
next
  case True
  have g: "gridW s = 10" "gridH s = 10" if "stuck s" for s
    using that by (simp_all add: stuck_def)
  have n: "nonSolid (getMatByIndex (arr_get (worldMat s) (idx s a b)) s) = False"
    if "stuck s" "(a, b) \<in> {(5, 1), (4, 1), (6, 1), (4, 0), (6, 0)}" for s a b
    using that stuck_neighbour [of s a b] by auto
  have sand: "\<not> fst (sandStage 5 0 (Some 1) s) \<and> stuck (snd (sandStage 5 0 (Some 1) s))"
    if "stuck s" for s
    using that by (simp add: sandStage_def Let_def split_def g n)
  have flw: "\<not> fst (flowStage 5 0 (Some 1) s) \<and> stuck (snd (flowStage 5 0 (Some 1) s))"
    if "stuck s" for s
    using that by (simp add: flowStage_def Let_def split_def g n)
  have "\<not> fst (moveStages 5 0 (Some 1) ((mk_material ''SAND'')\<lparr>flow := True\<rparr>) st)
        \<and> stuck (snd (moveStages 5 0 (Some 1) ((mk_material ''SAND'')\<lparr>flow := True\<rparr>) st))"
    using assms(1) sand flw
    by (simp add: moveStages_def Let_def split_def mk_material_def)
  moreover have "\<not> toggleTemp s" if "stuck s" for s using that by (simp add: stuck_def)
  ultimately show ?thesis
    using True assms(1) stuck_cell [OF assms]
    by (simp add: pass1Cell_def stuck_sand mk_material_def split_def Let_def)
qed

lemma stuck_pass2Cell:
  assumes "stuck st" "x < 10" "y < 10"
  shows "pass2Cell (int x) (int y) st = st"
  using assms stuck_cell [OF assms]
  by (auto simp: pass2Cell_def stuck_no_material stuck_sand mk_material_def)

lemma fold_invariant:
  assumes "\<And>x s. x \<in> set xs \<Longrightarrow> P s \<Longrightarrow> P (f x s)" "P s"
  shows "P (fold f xs s)"
  using assms by (induction xs arbitrary: s) simp_all

lemma stuck_pass1:
  assumes "stuck st"
  shows "stuck (pass1 st)"
proof -
  have W: "gridW st = 10" "gridH st = 10"
    using assms by (simp_all add: stuck_def)
  have row: "stuck (fold (\<lambda>x s'. pass1Cell (int x) (int y) s') [0..<10] s)"
    if "stuck s" "y < 10" for s y
    by (rule fold_invariant [where P = stuck]) (use that in \<open>auto intro: stuck_pass1Cell\<close>)
  show ?thesis
    unfolding pass1_def W
    by (rule fold_invariant [where P = stuck]) (use assms in \<open>auto intro: row\<close>)
qed

lemma stuck_pass2:
  assumes "stuck st"
  shows "stuck (pass2 st)"
proof -
  have W: "gridW st = 10" "gridH st = 10"
    using assms by (simp_all add: stuck_def)
  have row: "stuck (fold (\<lambda>x s'. pass2Cell (int x) (int y) s') [0..<10] s)"
    if "stuck s" "y < 10" for s y
    by (rule fold_invariant [where P = stuck]) (use that in \<open>auto simp: stuck_pass2Cell\<close>)
  show ?thesis
    unfolding pass2_def W
    by (rule fold_invariant [where P = stuck]) (use assms in \<open>auto intro: row\<close>)
qed

lemma stuck_simTick: "stuck st \<Longrightarrow> stuck (simTick st)"
  by (simp add: simTick_def stuck_pass1 stuck_pass2)

lemma stuck_ticks: "stuck st \<Longrightarrow> stuck ((simTick ^^ n) st)"
  by (induction n) (simp_all add: stuck_simTick)

lemma sandWorld_stuck: "stuck (sandWorld seed mr)"
  unfolding stuck_def sandWorld_def by code_simp

text \<open>
  C6. On the freshly allocated 10 by 10 world every cell but the sand holds \<open>-1\<close>, for
  which \<open>getMatByIndex\<close> finds no material, so no neighbour passes the non-solid test: for
  every seed the sand (index 1) stays at \<open>(5, 0)\<close> through any number of ticks, and after 9
  ticks the cell \<open>(5, 9)\<close> still holds \<open>-1\<close>.
\<close>

theorem sand_stays_on_fresh_world:
  "worldMat ((simTick ^^ n) (sandWorld seed mr)) = worldMat (sandWorld seed mr)
   \<and> fst (getMatIndex ''SAND'' (sandWorld seed mr)) = Some 1
   \<and> arr_get (worldMat ((simTick ^^ 9) (sandWorld seed mr))) (idx (sandWorld seed mr) 5 0) = Some 1
   \<and> arr_get (worldMat ((simTick ^^ 9) (sandWorld seed mr))) (idx (sandWorld seed mr) 5 9)
       = Some (- 1)"
proof -
  have wm: "worldMat ((simTick ^^ k) (sandWorld seed mr)) = (replicate 100 (- 1))[5 := 1]" for k
    using stuck_ticks [OF sandWorld_stuck, of k seed mr] by (simp add: stuck_def)
  have w0: "worldMat (sandWorld seed mr) = (replicate 100 (- 1))[5 := 1]"
    using wm [of 0] by simp
  have i: "idx (sandWorld seed mr) 5 0 = 5" "idx (sandWorld seed mr) 5 9 = 95"
    using sandWorld_stuck [of seed mr] by (simp_all add: idx_def stuck_def)
  have s: "fst (getMatIndex ''SAND'' (sandWorld seed mr)) = Some 1"
    unfolding sandWorld_def by code_simp
  show ?thesis
    unfolding wm w0 i using s by (simp add: arr_get_def)
qed

subsection \<open>Brush painting stays inside the grid\<close>

lemma foldE_invariant:
  assumes "\<And>x s. x \<in> set xs \<Longrightarrow> P s \<Longrightarrow> \<exists>s'. f x s = Inr s' \<and> P s'" "P s"
  shows "\<exists>s'. foldE f xs s = Inr s' \<and> P s'"
  using assms
proof (induction xs arbitrary: s)
  case Nil
  then show ?case by simp
next
  case (Cons x xs)
  from Cons.prems(1) [of x s] Cons.prems(2)
  obtain s1 where s1: "f x s = Inr s1" "P s1" by auto
  have "\<exists>s'. foldE f xs s1 = Inr s' \<and> P s'"
    by (rule Cons.IH) (use Cons.prems(1) s1(2) in auto)
  then show ?case by (simp add: s1(1))
qed

lemma brushCell_cases:
  assumes "worldAllocated s"
  shows "\<exists>s'. brushCell r gx gy dy dx s = Inr s'
           \<and> gridW s' = gridW s \<and> gridH s' = gridH s \<and> worldAllocated s'
           \<and> ((worldMat s' = worldMat s \<and> worldTemp s' = worldTemp s)
               \<or> (0 \<le> gx + dx \<and> gx + dx < int (gridW s) \<and> 0 \<le> gy + dy \<and> gy + dy < int (gridH s)
                  \<and> (\<exists>v. worldMat s' = arr_set (worldMat s) (idx s (gx + dx) (gy + dy)) v)
                  \<and> (\<exists>t. worldTemp s' = arr_set (worldTemp s) (idx s (gx + dx) (gy + dy)) t)))"
proof (cases "gx + dx < 0 \<or> gy + dy < 0 \<or> gx + dx \<ge> int (gridW s) \<or> gy + dy \<ge> int (gridH s)")
  case True
  then show ?thesis using assms by (auto simp: brushCell_def Let_def)
next
  case False
  then have b: "0 \<le> gx + dx" "gx + dx < int (gridW s)" "0 \<le> gy + dy" "gy + dy < int (gridH s)"
    by auto
  show ?thesis
    using False b assms
    by (simp add: brushCell_def Let_def split_def idx_def) blast
qed

lemma brushFrame_step:
  assumes "brushFrame st gx gy s" "\<bar>dx\<bar> \<le> brushSize st" "\<bar>dy\<bar> \<le> brushSize st"
  shows "\<exists>s'. brushCell r gx gy dy dx s = Inr s' \<and> brushFrame st gx gy s'"
proof -
  have g: "gridW s = gridW st" "gridH s = gridH st" "length (worldMat s) = length (worldMat st)"
      "length (worldTemp s) = length (worldTemp st)" and al: "worldAllocated s"
    using assms(1) by (simp_all add: brushFrame_def)
  from brushCell_cases [OF al, of r gx gy dy dx]
  obtain s' where s': "brushCell r gx gy dy dx s = Inr s'"
    and fr: "gridW s' = gridW s" "gridH s' = gridH s" "worldAllocated s'"
    and eff: "(worldMat s' = worldMat s \<and> worldTemp s' = worldTemp s)
               \<or> (0 \<le> gx + dx \<and> gx + dx < int (gridW s) \<and> 0 \<le> gy + dy \<and> gy + dy < int (gridH s)
                  \<and> (\<exists>v. worldMat s' = arr_set (worldMat s) (idx s (gx + dx) (gy + dy)) v)
                  \<and> (\<exists>t. worldTemp s' = arr_set (worldTemp s) (idx s (gx + dx) (gy + dy)) t))"
    by blast
  from eff consider (same) "worldMat s' = worldMat s" "worldTemp s' = worldTemp s"
    | (wrote) v t where "0 \<le> gx + dx" "gx + dx < int (gridW s)" "0 \<le> gy + dy"
        "gy + dy < int (gridH s)"
        "worldMat s' = arr_set (worldMat s) (idx s (gx + dx) (gy + dy)) v"
        "worldTemp s' = arr_set (worldTemp s) (idx s (gx + dx) (gy + dy)) t"
    by blast
  then have "brushFrame st gx gy s'"
  proof cases
    case same
    then show ?thesis
      using assms(1) fr by (simp add: brushFrame_def)
  next
    case wrote
    have reach: "inReach st gx gy i" if "int i = idx s (gx + dx) (gy + dy)" for i
      unfolding inReach_def
      using that wrote(1-4) assms(2,3) g
      by (intro exI [of _ "gx + dx"] exI [of _ "gy + dy"]) (simp add: idx_def)
    have m: "inReach st gx gy i"
      if "i < length (worldMat st)" "worldMat s' ! i \<noteq> worldMat st ! i" for i
    proof (cases "int i = idx s (gx + dx) (gy + dy)")
      case True
      then show ?thesis by (rule reach)
    next
      case False
      then have "worldMat s' ! i = worldMat s ! i"
        unfolding wrote(5) by (auto simp: arr_set_def nth_list_update)
      with that assms(1) show ?thesis by (simp add: brushFrame_def)
    qed
    have t: "inReach st gx gy i"
      if "i < length (worldTemp st)" "worldTemp s' ! i \<noteq> worldTemp st ! i" for i
    proof (cases "int i = idx s (gx + dx) (gy + dy)")
      case True
      then show ?thesis by (rule reach)
    next
      case False
      then have "worldTemp s' ! i = worldTemp s ! i"
        unfolding wrote(6) by (auto simp: arr_set_def nth_list_update)
      with that assms(1) show ?thesis by (simp add: brushFrame_def)
    qed
    show ?thesis
      unfolding brushFrame_def using fr g m t by (simp add: wrote(5,6))
  qed
  with s' show ?thesis by blast
qed

lemma brushFrame_draw:
  assumes "worldAllocated st"
  shows "\<exists>s'. drawBrushAt gx gy st = Inr s' \<and> brushFrame st gx gy s'"
proof -
  have init: "brushFrame st gx gy st" using assms by (simp add: brushFrame_def)
  have row: "\<exists>s'. foldE (\<lambda>dx s'. brushCell (brushSize st) gx gy dy dx s')
                     [- brushSize st..brushSize st] s = Inr s' \<and> brushFrame st gx gy s'"
    if "brushFrame st gx gy s" "dy \<in> set [- brushSize st..brushSize st]" for s dy
    by (rule foldE_invariant [where P = "brushFrame st gx gy"])
       (use that in \<open>auto intro!: brushFrame_step\<close>)
  show ?thesis
    unfolding drawBrushAt_def Let_def
    by (rule foldE_invariant [where P = "brushFrame st gx gy"]) (auto intro: row init)
qed

lemma rd64_zero: "rd64 0 = Num 0"
  by code_simp

lemma brushWorld_fields:
  "gridW brushWorld = 1" "gridH brushWorld = 1" "worldMat brushWorld = [- 1]"
  "brushSize brushWorld = 2" "brushSoft brushWorld = False" "worldAllocated brushWorld"
  "currentMaterial brushWorld = ''SAND''" "mrand brushWorld (mrandPos brushWorld) = 0"
  "map_of (matIndexMap brushWorld) ''SAND'' = Some 1"
  unfolding brushWorld_def by code_simp+

lemma brushCell_outside:
  "gx + dx < 0 \<Longrightarrow> brushCell r gx gy dy dx s = Inr s"
  "gy + dy < 0 \<Longrightarrow> brushCell r gx gy dy dx s = Inr s"
  "int (gridW s) \<le> gx + dx \<Longrightarrow> brushCell r gx gy dy dx s = Inr s"
  "int (gridH s) \<le> gy + dy \<Longrightarrow> brushCell r gx gy dy dx s = Inr s"
  by (simp_all add: brushCell_def Let_def)

text \<open>
  C9 (as the code has it). On an allocated world, for every centre \<open>(gx, gy)\<close> and every
  radius, \<open>drawBrushAt\<close> does not throw, keeps the lengths of \<open>worldMat\<close> and
  \<open>worldTemp\<close>, and every entry it changes is a cell \<open>(x, y)\<close> with \<open>0 \<le> x < gridW\<close>
  and \<open>0 \<le> y < gridH\<close> no further than the radius from the centre in either coordinate.
\<close>

theorem brush_stays_in_grid:
  assumes "worldAllocated st"
  shows "thrown (drawBrushAt gx gy st) = None
       \<and> length (worldMat (leftBehind (drawBrushAt gx gy st))) = length (worldMat st)
       \<and> length (worldTemp (leftBehind (drawBrushAt gx gy st))) = length (worldTemp st)
       \<and> (\<forall>i < length (worldMat st).
             worldMat (leftBehind (drawBrushAt gx gy st)) ! i \<noteq> worldMat st ! i
             \<longrightarrow> inReach st gx gy i)
       \<and> (\<forall>i < length (worldTemp st).
             worldTemp (leftBehind (drawBrushAt gx gy st)) ! i \<noteq> worldTemp st ! i
             \<longrightarrow> inReach st gx gy i)"
proof -
  from brushFrame_draw [OF assms, of gx gy]
  obtain s' where "drawBrushAt gx gy st = Inr s'" "brushFrame st gx gy s'" by blast
  then show ?thesis by (simp add: brushFrame_def thrown_def leftBehind_def)
qed

theorem brush_stays_in_grid_witness:
  "worldAllocated brushWorld \<and> (0::nat) < length (worldMat brushWorld)
   \<and> thrown (drawBrushAt 0 0 brushWorld) = None
   \<and> worldMat (leftBehind (drawBrushAt 0 0 brushWorld)) ! 0 \<noteq> worldMat brushWorld ! 0
   \<and> inReach brushWorld 0 0 0
   \<and> length (worldMat (leftBehind (drawBrushAt 0 0 brushWorld))) = length (worldMat brushWorld)"
proof -
  have h0: "worldAllocated brushWorld" by (simp add: brushWorld_fields)
  have h1: "(0::nat) < length (worldMat brushWorld)"
    by (simp add: brushWorld_fields)
  have u: "[- 2..2] = [- 2, - 1, 0, 1, 2::int]"
    by code_simp
  have c: "\<exists>s'. brushCell 2 0 0 0 0 brushWorld = Inr s' \<and> worldMat s' = [1]
                \<and> gridW s' = 1 \<and> gridH s' = 1"
    by (simp add: brushCell_def brushWorld_fields Let_def split_def rd64_zero
          mathRandom_def getMatIndex_def truthy_def idx_def arr_set_def toInt32_def wrap32_def)
  then obtain s' where s': "brushCell 2 0 0 0 0 brushWorld = Inr s'" "worldMat s' = [1]"
      "gridW s' = 1" "gridH s' = 1" by blast
  have d: "drawBrushAt 0 0 brushWorld = Inr s'"
    by (simp add: drawBrushAt_def brushWorld_fields u brushCell_outside s'
          del: upto_rec_numeral)
  have h2: "worldMat (leftBehind (drawBrushAt 0 0 brushWorld)) ! 0 \<noteq> worldMat brushWorld ! 0"
    by (simp add: d s' leftBehind_def brushWorld_fields)
  show ?thesis
    using h0 h1 h2 brush_stays_in_grid [OF h0, of 0 0] by blast
qed

text \<open>
  C9 as stated fails: \<open>boot\<close> attaches the canvas listeners before the world is allocated,
  and a stroke at \<open>(0, 0)\<close> in that state throws a \<open>TypeError\<close> at the first cell inside
  the declared grid.
\<close>

theorem brush_before_allocation_throws:
  "\<not> worldAllocated bootState \<and> gridW bootState = 400 \<and> gridH bootState = 300
   \<and> brushSize bootState = 6
   \<and> thrown (drawBrushAt 0 0 bootState) = Some TypeError"
proof -
  have f: "\<not> worldAllocated bootState" "gridW bootState = 400" "gridH bootState = 300"
    "brushSize bootState = 6" "brushSoft bootState = False"
    "mrand bootState (mrandPos bootState) = 0"
    by (simp_all add: bootState_def initApp_def)
  have u: "[- 6..6] = [- 6, - 5, - 4, - 3, - 2, - 1, 0, 1, 2, 3, 4, 5, 6::int]"
    by code_simp
  have c: "\<exists>s'. brushCell 6 0 0 0 0 bootState = Inl (TypeError, s')"
    by (simp add: brushCell_def f Let_def split_def rd64_zero mathRandom_def)
  then obtain s' where s': "brushCell 6 0 0 0 0 bootState = Inl (TypeError, s')" by blast
  have "drawBrushAt 0 0 bootState = Inl (TypeError, s')"
    by (simp add: drawBrushAt_def f u brushCell_outside s' del: upto_rec_numeral)
  then show ?thesis using f by (simp add: thrown_def)
qed

subsection \<open>Writing an unregistered material\<close>

lemma map_of_obj_set: "map_of (obj_set k v m) = (map_of m)(k \<mapsto> v)"
  by (induction m) (auto simp: fun_eq_iff)

lemma keyIndex_None: "keyIndex k xs = None \<longleftrightarrow> k \<notin> set xs"
  by (induction xs) auto

lemma keyIndex_Some: "keyIndex k xs = Some i \<Longrightarrow> i < length xs \<and> xs ! i = k"
  by (induction xs arbitrary: i) (auto split: if_splits)

lemma keyIndex_snoc:
  "keyIndex k (xs @ [x]) = (case keyIndex k xs of Some i \<Rightarrow> Some i
                             | None \<Rightarrow> if x = k then Some (length xs) else None)"
  by (induction xs) (auto split: option.splits)

lemma cache_fill:
  assumes "distinct keys" "n \<le> length keys"
  shows "map_of (fold (\<lambda>i m. obj_set (keys ! i) (int i) m) [0..<n] c) k
           = (case keyIndex k (take n keys) of Some i \<Rightarrow> Some (int i) | None \<Rightarrow> map_of c k)"
  using assms(2)
proof (induction n)
  case 0
  then show ?case by simp
next
  case (Suc n)
  then have n: "n < length keys" by simp
  have tk: "take (Suc n) keys = take n keys @ [keys ! n]"
    using n by (simp add: take_Suc_conv_app_nth)
  have notin: "keys ! n \<notin> set (take n keys)"
    using assms(1) n by (auto simp: in_set_conv_nth distinct_conv_nth)
  then have kn: "keyIndex (keys ! n) (take n keys) = None"
    by (simp add: keyIndex_None)
  show ?case
  proof (cases "k = keys ! n")
    case True
    then show ?thesis
      using n kn by (simp add: tk keyIndex_snoc map_of_obj_set)
  next
    case False
    then have "keyIndex k (take n keys @ [keys ! n]) = keyIndex k (take n keys)"
      by (simp add: keyIndex_snoc split: option.splits)
    then show ?thesis
      using Suc.IH n False by (simp add: tk map_of_obj_set)
  qed
qed

lemma cacheOk_iff:
  "cacheOk st \<longleftrightarrow> (\<forall>k i. map_of (matIndexMap st) k = Some i \<longrightarrow> registryIndex k st = Some i)"
proof
  assume ok: "cacheOk st"
  show "\<forall>k i. map_of (matIndexMap st) k = Some i \<longrightarrow> registryIndex k st = Some i"
  proof (intro allI impI)
    fix k i assume h: "map_of (matIndexMap st) k = Some i"
    then have "k \<in> set (map fst (matIndexMap st))"
      by (metis map_of_eq_None_iff option.distinct(1) set_map)
    with ok h show "registryIndex k st = Some i"
      by (auto simp: cacheOk_def list_all_iff)
  qed
next
  assume h: "\<forall>k i. map_of (matIndexMap st) k = Some i \<longrightarrow> registryIndex k st = Some i"
  show "cacheOk st"
    unfolding cacheOk_def list_all_iff
  proof
    fix k assume "k \<in> set (map fst (matIndexMap st))"
    then obtain i where "map_of (matIndexMap st) k = Some i"
      by (metis map_of_eq_None_iff not_None_eq set_map)
    with h show "map_of (matIndexMap st) k = registryIndex k st" by simp
  qed
qed

lemma getMatIndex_registry:
  assumes "cacheOk st" "distinct (map fst (materials st))"
  shows "fst (getMatIndex k st) = registryIndex k st \<and> cacheOk (snd (getMatIndex k st))"
proof (cases "map_of (matIndexMap st) k")
  case (Some i)
  then show ?thesis
    using assms(1) by (simp add: getMatIndex_def cacheOk_iff)
next
  case None
  let ?keys = "map fst (materials st)"
  let ?m = "fold (\<lambda>i m. obj_set (?keys ! i) (int i) m) [0..<length (materials st)]
              (matIndexMap st)"
  have m: "map_of ?m k' = (case keyIndex k' ?keys of Some i \<Rightarrow> Some (int i)
                            | None \<Rightarrow> map_of (matIndexMap st) k')" for k'
    using cache_fill [OF assms(2), of "length ?keys"] by simp
  have g: "getMatIndex k st = (map_of ?m k, st\<lparr>matIndexMap := ?m\<rparr>)"
    using None by (simp add: getMatIndex_def Let_def)
  have r: "registryIndex k' (st\<lparr>matIndexMap := ?m\<rparr>) = registryIndex k' st" for k'
    by (simp add: registryIndex_def)
  have "fst (getMatIndex k st) = registryIndex k st"
    using None by (simp add: g m registryIndex_def split: option.splits)
  moreover have "cacheOk (st\<lparr>matIndexMap := ?m\<rparr>)"
    unfolding cacheOk_iff
  proof (intro allI impI)
    fix k' i
    assume h: "map_of (matIndexMap (st\<lparr>matIndexMap := ?m\<rparr>)) k' = Some i"
    show "registryIndex k' (st\<lparr>matIndexMap := ?m\<rparr>) = Some i"
    proof (cases "keyIndex k' ?keys")
      case None
      with h have "map_of (matIndexMap st) k' = Some i" by (simp add: m)
      with assms(1) show ?thesis by (simp add: cacheOk_iff r)
    next
      case (Some j)
      with h show ?thesis by (simp add: m r registryIndex_def)
    qed
  qed
  ultimately show ?thesis by (simp add: g)
qed

lemma registryIndex_unregistered: "map_of (materials st) k = None \<Longrightarrow> registryIndex k st = None"
  by (simp add: registryIndex_def keyIndex_None map_of_eq_None_iff)

lemma registryIndex_getMatIndex [simp]:
  "registryIndex k' (snd (getMatIndex k st)) = registryIndex k' st"
  using getMatIndex_frame [of k st] by (auto simp: registryIndex_def)

lemma cacheOk_transfer:
  "cacheOk st \<Longrightarrow> materials s = materials st \<Longrightarrow> matIndexMap s = matIndexMap st \<Longrightarrow> cacheOk s"
  by (simp add: cacheOk_def registryIndex_def)

lemma registryIndex_cong: "materials s = materials st \<Longrightarrow> registryIndex k s = registryIndex k st"
  by (simp add: registryIndex_def)

lemma setMatAt_writes_empty:
  assumes "map_of (materials st) k = None" "cacheOk st" "distinct (map fst (materials st))"
    and "0 \<le> x" "x < int (gridW st)" "0 \<le> y" "y < int (gridH st)"
  shows "worldMat (setMatAt x y k st)
           = arr_set (worldMat st) (idx st x y) (toInt32 (registryIndex ''EMPTY'' st))"
proof -
  let ?st1 = "snd (getMatIndex k st)"
  have a: "fst (getMatIndex k st) = None" and ok1: "cacheOk ?st1"
    using getMatIndex_registry [OF assms(2,3), of k] registryIndex_unregistered [OF assms(1)]
    by simp_all
  have d1: "distinct (map fst (materials ?st1))"
    using assms(3) by simp
  have e: "fst (getMatIndex ''EMPTY'' ?st1) = registryIndex ''EMPTY'' st"
    using getMatIndex_registry [OF ok1 d1, of "''EMPTY''"] by simp
  show ?thesis
    using assms(4-7) a e
    by (simp add: setMatAt_def Let_def split_def truthy_def idx_def)
qed

lemma brushCell_unregistered:
  assumes "emptiedOnly st s" "map_of (materials st) (currentMaterial st) = None"
    and "distinct (map fst (materials st))"
  shows "emptiedOnly st (leftBehind (brushCell r gx gy dy dx s))"
proof -
  let ?E = "toInt32 (registryIndex ''EMPTY'' st)"
  have ok: "cacheOk s" and ms: "materials s = materials st"
    and cm: "currentMaterial s = currentMaterial st"
    and len: "length (worldMat s) = length (worldMat st)"
    and rel: "list_all2 (\<lambda>a b. b = a \<or> b = ?E) (worldMat st) (worldMat s)"
    using assms(1) by (simp_all add: emptiedOnly_def)
  let ?s1 = "snd (mathRandom s)"
  let ?s2 = "snd (getMatIndex (currentMaterial ?s1) ?s1)"
  let ?s3 = "snd (getMatIndex ''EMPTY'' ?s2)"
  have ok1: "cacheOk ?s1" by (rule cacheOk_transfer [OF ok]) simp_all
  have d1: "distinct (map fst (materials ?s1))" using assms(3) ms by simp
  have un1: "map_of (materials ?s1) (currentMaterial ?s1) = None"
    using assms(2) ms cm by simp
  have a: "fst (getMatIndex (currentMaterial ?s1) ?s1) = None" and ok2: "cacheOk ?s2"
    using getMatIndex_registry [OF ok1 d1, of "currentMaterial ?s1"]
      registryIndex_unregistered [OF un1] by simp_all
  have d2: "distinct (map fst (materials ?s2))" using d1 by simp
  have "registryIndex ''EMPTY'' ?s2 = registryIndex ''EMPTY'' st"
    by (rule registryIndex_cong) (simp add: ms)
  then have e: "fst (getMatIndex ''EMPTY'' ?s2) = registryIndex ''EMPTY'' st"
    and ok3: "cacheOk ?s3"
    using getMatIndex_registry [OF ok2 d2, of "''EMPTY''"] by simp_all
  have upd: "list_all2 (\<lambda>a b. b = a \<or> b = ?E) (worldMat st) (arr_set (worldMat s) j ?E)" for j
    using rel by (fastforce simp: arr_set_def list_all2_conv_all_nth nth_list_update)
  have painted: "emptiedOnly st
      (markChunkDirtyForCell x y
        (?s3\<lparr>worldMat := arr_set (worldMat s) j ?E, worldTemp := tw\<rparr>))" for x y j tw
    unfolding emptiedOnly_def
    using cacheOk_transfer [OF ok3, of "markChunkDirtyForCell x y
        (?s3\<lparr>worldMat := arr_set (worldMat s) j ?E, worldTemp := tw\<rparr>)"]
      ms cm len upd [of j] by simp
  have skipped: "emptiedOnly st ?s1"
    unfolding emptiedOnly_def using ok1 ms cm len rel by simp
  have aborted: "emptiedOnly st ?s3"
    unfolding emptiedOnly_def using ok3 ms cm len rel by simp
  show ?thesis
    using assms(1) skipped aborted painted a e
    by (simp add: brushCell_def Let_def split_def truthy_def leftBehind_def)
qed

lemma foldE_leftBehind:
  assumes "\<And>x s. x \<in> set xs \<Longrightarrow> P s \<Longrightarrow> P (leftBehind (f x s))" "P s"
  shows "P (leftBehind (foldE f xs s))"
  using assms
proof (induction xs arbitrary: s)
  case Nil
  then show ?case by (simp add: leftBehind_def)
next
  case (Cons x xs)
  show ?case
  proof (cases "f x s")
    case (Inl es)
    with Cons.prems(1) [of x s] Cons.prems(2) show ?thesis
      by (simp add: leftBehind_def)
  next
    case (Inr s1)
    with Cons.prems(1) [of x s] Cons.prems(2) have "P s1"
      by (simp add: leftBehind_def)
    then have "P (leftBehind (foldE f xs s1))"
      by (rule Cons.IH [rotated]) (use Cons.prems(1) in auto)
    with Inr show ?thesis by simp
  qed
qed

lemma drawBrushAt_unregistered:
  assumes "cacheOk st" "map_of (materials st) (currentMaterial st) = None"
    and "distinct (map fst (materials st))"
  shows "emptiedOnly st (leftBehind (drawBrushAt gx gy st))"
proof -
  have init: "emptiedOnly st st"
    using assms(1) by (simp add: emptiedOnly_def list_all2_conv_all_nth)
  show ?thesis
    unfolding drawBrushAt_def Let_def
    by (rule foldE_leftBehind [where P = "emptiedOnly st"],
        rule foldE_leftBehind [where P = "emptiedOnly st"])
       (auto intro: brushCell_unregistered [OF _ assms(2,3)] init)
qed

text \<open>
  C4 (as the code has it). For an id that is not registered, a cell write is not a no-op:
  \<open>getMatIndex(id) || getMatIndex('EMPTY')\<close> falls back to \<open>EMPTY\<close>. An in-bounds
  \<open>setMatAt\<close> stores the registry index of \<open>EMPTY\<close> in the cell (0 when \<open>EMPTY\<close> is not
  registered either), and after \<open>drawBrushAt\<close> with that id selected every cell holds
  what it held before or the registry index of \<open>EMPTY\<close>.
\<close>

theorem unregistered_write_stores_empty:
  assumes "map_of (materials st) k = None" "cacheOk st" "distinct (map fst (materials st))"
    and "0 \<le> x" "x < int (gridW st)" "0 \<le> y" "y < int (gridH st)"
  shows "worldMat (setMatAt x y k st)
           = arr_set (worldMat st) (idx st x y) (toInt32 (registryIndex ''EMPTY'' st))
       \<and> list_all2 (\<lambda>a b. b = a \<or> b = toInt32 (registryIndex ''EMPTY'' st))
             (worldMat st)
             (worldMat (leftBehind (drawBrushAt gx gy (st\<lparr>currentMaterial := k\<rparr>))))"
proof -
  let ?b = "st\<lparr>currentMaterial := k\<rparr>"
  have ok: "cacheOk ?b" by (rule cacheOk_transfer [OF assms(2)]) simp_all
  have r: "registryIndex ''EMPTY'' ?b = registryIndex ''EMPTY'' st"
    by (rule registryIndex_cong) simp
  have "emptiedOnly ?b (leftBehind (drawBrushAt gx gy ?b))"
    using assms(1,3) by (intro drawBrushAt_unregistered [OF ok]) simp_all
  then have "list_all2 (\<lambda>a b. b = a \<or> b = toInt32 (registryIndex ''EMPTY'' st))
               (worldMat st) (worldMat (leftBehind (drawBrushAt gx gy ?b)))"
    by (simp add: emptiedOnly_def r)
  then show ?thesis
    using setMatAt_writes_empty [OF assms] by simp
qed

theorem unregistered_write_stores_empty_witness:
  "map_of (materials sandCell) ''NOPE'' = None \<and> cacheOk sandCell
   \<and> distinct (map fst (materials sandCell))
   \<and> (0::int) \<le> 0 \<and> (0::int) < int (gridW sandCell) \<and> (0::int) < int (gridH sandCell)
   \<and> worldMat (setMatAt 0 0 ''NOPE'' sandCell)
       = arr_set (worldMat sandCell) (idx sandCell 0 0) (toInt32 (registryIndex ''EMPTY'' sandCell))
   \<and> list_all2 (\<lambda>a b. b = a \<or> b = toInt32 (registryIndex ''EMPTY'' sandCell))
         (worldMat sandCell)
         (worldMat (leftBehind (drawBrushAt 0 0 (sandCell\<lparr>currentMaterial := ''NOPE''\<rparr>))))
   \<and> registryIndex ''EMPTY'' sandCell = Some 0"
proof -
  have h: "map_of (materials sandCell) ''NOPE'' = None" "cacheOk sandCell"
    "distinct (map fst (materials sandCell))"
    "(0::int) \<le> 0" "(0::int) < int (gridW sandCell)" "(0::int) \<le> 0" "(0::int) < int (gridH sandCell)"
    by code_simp+
  have r: "registryIndex ''EMPTY'' sandCell = Some 0" by code_simp
  show ?thesis
    using h r unregistered_write_stores_empty [OF h, of 0 0] by simp
qed

text \<open>
  C4 as stated fails: writing the unregistered id \<open>NOPE\<close> over a sand cell (index 1)
  leaves index 0, the empty material, in the cell.
\<close>

theorem unregistered_write_overwrites:
  "map_of (materials sandCell) ''NOPE'' = None \<and> worldMat sandCell = [1]
   \<and> worldMat (setMatAt 0 0 ''NOPE'' sandCell) = [0]
   \<and> worldMat (setMatAt 0 0 ''NOPE'' sandCell) \<noteq> worldMat sandCell"
  by code_simp

subsection \<open>Moves leave temperatures and flags alone\<close>

lemma moveCell_keeps:
  "worldTemp (moveCell x y x2 y2 mIdx st) = worldTemp st"
  "worldMeta (moveCell x y x2 y2 mIdx st) = worldMeta st"
  by (simp_all add: moveCell_def Let_def split_def)

lemma rngNext_keeps:
  "worldTemp (snd (rngNext st)) = worldTemp st"
  "worldMeta (snd (rngNext st)) = worldMeta st"
  by (simp_all add: rngNext_def Let_def)

lemma sandStage_keeps:
  "worldTemp (snd (sandStage x y mIdx st)) = worldTemp st
   \<and> worldMeta (snd (sandStage x y mIdx st)) = worldMeta st"
  by (simp add: sandStage_def Let_def split_def moveCell_keeps rngNext_keeps)

lemma flowStage_keeps:
  "worldTemp (snd (flowStage x y mIdx st)) = worldTemp st
   \<and> worldMeta (snd (flowStage x y mIdx st)) = worldMeta st"
  by (simp add: flowStage_def Let_def split_def moveCell_keeps rngNext_keeps)

lemma gasStage_keeps:
  "worldTemp (snd (gasStage x y mIdx st)) = worldTemp st
   \<and> worldMeta (snd (gasStage x y mIdx st)) = worldMeta st"
  by (simp add: gasStage_def moveCell_keeps)

lemma moveStages_keeps:
  "worldTemp (snd (moveStages x y mIdx mat st)) = worldTemp st
   \<and> worldMeta (snd (moveStages x y mIdx mat st)) = worldMeta st"
  by (simp add: moveStages_def Let_def split_def sandStage_keeps flowStage_keeps gasStage_keeps)

text \<open>
  C10. When the movement stages move the cell at \<open>(x, y)\<close> (granular fall or slide, liquid
  flow, gas rise), the step of pass 1 for that cell changes neither \<open>worldTemp\<close> nor
  \<open>worldMeta\<close>: the move writes \<open>worldMat\<close> (and the dirty flags) only, so the temperature
  of the moved material stays at its old location.
\<close>

theorem move_keeps_temperature:
  assumes "arr_get (worldMat st) (idx st x y) = mIdx" "getMatByIndex mIdx st = Some mat"
    and "fst (moveStages x y mIdx mat st)"
  shows "worldTemp (pass1Cell x y st) = worldTemp st
       \<and> worldMeta (pass1Cell x y st) = worldMeta st
       \<and> worldTemp (snd (moveStages x y mIdx mat st)) = worldTemp st
       \<and> worldMeta (snd (moveStages x y mIdx mat st)) = worldMeta st"
  using assms moveStages_keeps [of x y mIdx mat st]
  by (simp add: pass1Cell_def Let_def split_def split: option.splits)

theorem move_keeps_temperature_witness:
  "arr_get (worldMat sandOnWater) (idx sandOnWater 0 0) = Some 1
   \<and> getMatByIndex (Some 1) sandOnWater = Some ((mk_material ''SAND'')\<lparr>flow := True\<rparr>)
   \<and> fst (moveStages 0 0 (Some 1) ((mk_material ''SAND'')\<lparr>flow := True\<rparr>) sandOnWater)
   \<and> worldMat (pass1Cell 0 0 sandOnWater) = [0, 1]
   \<and> worldTemp (pass1Cell 0 0 sandOnWater) = worldTemp sandOnWater
   \<and> worldMeta (pass1Cell 0 0 sandOnWater) = worldMeta sandOnWater"
proof -
  have h: "arr_get (worldMat sandOnWater) (idx sandOnWater 0 0) = Some 1"
    "getMatByIndex (Some 1) sandOnWater = Some ((mk_material ''SAND'')\<lparr>flow := True\<rparr>)"
    "fst (moveStages 0 0 (Some 1) ((mk_material ''SAND'')\<lparr>flow := True\<rparr>) sandOnWater)"
    by code_simp+
  have m: "worldMat (pass1Cell 0 0 sandOnWater) = [0, 1]" by code_simp
  show ?thesis
    using h m move_keeps_temperature [OF h] by simp
qed

subsection \<open>Temperature diffusion\<close>

lemma pass1_flat: "pass1 st = fold (\<lambda>c. pass1Cell (fst c) (snd c)) (cellOrder st) st"
proof -
  have "fold (\<lambda>y s. fold (\<lambda>x s'. pass1Cell (int x) (int y) s') xs s) ys s0
          = fold (\<lambda>c. pass1Cell (fst c) (snd c))
              (concat (map (\<lambda>y. map (\<lambda>x. (int x, int y)) xs) ys)) s0" for xs ys s0
    by (induction ys arbitrary: s0) (simp_all add: fold_map comp_def)
  then show ?thesis by (simp add: pass1_def cellOrder_def)
qed

lemma cellOrder_bounds:
  "c \<in> set (cellOrder st) \<Longrightarrow> 0 \<le> fst c \<and> fst c < int (gridW st) \<and> 0 \<le> snd c \<and> snd c < int (gridH st)"
  by (auto simp: cellOrder_def)

lemma cellOrder_distinct: "distinct (cellOrder st)"
proof -
  have "distinct (concat (map (\<lambda>y. map (\<lambda>x. (int x, int y)) [0..<w]) ys))"
    if "distinct ys" for ys :: "nat list" and w
    using that
  proof (induction ys)
    case Nil
    then show ?case by simp
  next
    case (Cons y ys)
    have "distinct (map (\<lambda>x. (int x, int y)) [0..<w])"
      by (simp add: distinct_map inj_on_def)
    with Cons show ?case by auto
  qed
  then show ?thesis by (simp add: cellOrder_def)
qed

lemma idx_inject:
  assumes "idx st x1 y1 = idx st x2 y2" "0 \<le> x1" "x1 < int (gridW st)" "0 \<le> x2" "x2 < int (gridW st)"
  shows "x1 = x2 \<and> y1 = y2"
proof -
  let ?W = "int (gridW st)"
  have W: "0 < ?W" using assms(2,3) by linarith
  have e: "y1 * ?W + x1 = y2 * ?W + x2" using assms(1) by (simp add: idx_def)
  have "(y1 * ?W + x1) mod ?W = x1" "(y2 * ?W + x2) mod ?W = x2"
    using assms(2-5) by simp_all
  then have x: "x1 = x2" using e by simp
  then have "y1 * ?W = y2 * ?W" using e by simp
  then show ?thesis using W x by simp
qed

lemma moveCell_grid:
  "gridW (moveCell x y x2 y2 mIdx st) = gridW st"
  "gridH (moveCell x y x2 y2 mIdx st) = gridH st"
  "toggleTemp (moveCell x y x2 y2 mIdx st) = toggleTemp st"
  "materials (moveCell x y x2 y2 mIdx st) = materials st"
  by (simp_all add: moveCell_def Let_def split_def)

lemma rngNext_grid:
  "gridW (snd (rngNext st)) = gridW st"
  "gridH (snd (rngNext st)) = gridH st"
  "toggleTemp (snd (rngNext st)) = toggleTemp st"
  "materials (snd (rngNext st)) = materials st"
  by (simp_all add: rngNext_def Let_def)

lemma moveStages_grid:
  "gridW (snd (moveStages x y mIdx mat st)) = gridW st
   \<and> gridH (snd (moveStages x y mIdx mat st)) = gridH st
   \<and> toggleTemp (snd (moveStages x y mIdx mat st)) = toggleTemp st
   \<and> materials (snd (moveStages x y mIdx mat st)) = materials st"
proof -
  have a: "gridW (snd (sandStage x y mIdx s)) = gridW s \<and> gridH (snd (sandStage x y mIdx s)) = gridH s
           \<and> toggleTemp (snd (sandStage x y mIdx s)) = toggleTemp s
           \<and> materials (snd (sandStage x y mIdx s)) = materials s" for s
    by (simp add: sandStage_def Let_def split_def moveCell_grid rngNext_grid)
  have b: "gridW (snd (flowStage x y mIdx s)) = gridW s \<and> gridH (snd (flowStage x y mIdx s)) = gridH s
           \<and> toggleTemp (snd (flowStage x y mIdx s)) = toggleTemp s
           \<and> materials (snd (flowStage x y mIdx s)) = materials s" for s
    by (simp add: flowStage_def Let_def split_def moveCell_grid rngNext_grid)
  have c: "gridW (snd (gasStage x y mIdx s)) = gridW s \<and> gridH (snd (gasStage x y mIdx s)) = gridH s
           \<and> toggleTemp (snd (gasStage x y mIdx s)) = toggleTemp s
           \<and> materials (snd (gasStage x y mIdx s)) = materials s" for s
    by (simp add: gasStage_def moveCell_grid)
  show ?thesis
    by (simp add: moveStages_def Let_def split_def a b c)
qed

lemma sameTempsExcept_refl: "sameTempsExcept i s s"
  by (simp add: sameTempsExcept_def)

lemma sameTempsExcept_trans:
  "sameTempsExcept i s s1 \<Longrightarrow> sameTempsExcept i s1 s2 \<Longrightarrow> sameTempsExcept i s s2"
  by (simp add: sameTempsExcept_def)

lemma arr_get_arr_set_other: "j \<noteq> i \<Longrightarrow> arr_get (arr_set xs i v) j = arr_get xs j"
  by (auto simp: arr_get_def arr_set_def nth_list_update)

lemma diffuseTemp_frame: "sameTempsExcept (idx st x y) st (diffuseTemp x y st)"
  by (simp add: sameTempsExcept_def diffuseTemp_def Let_def split_def arr_get_arr_set_other)

lemma boilStep_frame: "sameTempsExcept (idx st x y) st (boilStep x y mIdx mat st)"
  by (simp add: sameTempsExcept_def boilStep_def Let_def split_def arr_get_arr_set_other)

lemma solidifyStep_frame: "sameTempsExcept (idx st x y) st (solidifyStep x y mat st)"
  by (simp add: sameTempsExcept_def solidifyStep_def Let_def split_def arr_get_arr_set_other)

lemma igniteStep_frame: "sameTempsExcept (idx st x y) st (igniteStep x y mat st)"
  by (simp add: sameTempsExcept_def igniteStep_def Let_def split_def arr_get_arr_set_other)

lemma sameTempsExcept_idx: "sameTempsExcept i s s' \<Longrightarrow> idx s' x y = idx s x y"
  by (simp add: sameTempsExcept_def idx_def)

lemma sameTempsExcept_step:
  assumes "sameTempsExcept (idx st x y) st s" "sameTempsExcept (idx s x y) s s'"
  shows "sameTempsExcept (idx st x y) st s'"
  using assms sameTempsExcept_idx [OF assms(1), of x y]
  by (simp add: sameTempsExcept_def)

lemma thermalStage_frame: "sameTempsExcept (idx st x y) st (thermalStage x y mIdx mat st)"
  unfolding thermalStage_def
  by (intro sameTempsExcept_step [OF _ igniteStep_frame]
        sameTempsExcept_step [OF _ solidifyStep_frame] boilStep_frame)

lemma moveStages_frame: "sameTempsExcept i st (snd (moveStages x y mIdx mat st))"
  using moveStages_grid [of x y mIdx mat st] moveStages_keeps [of x y mIdx mat st]
  by (simp add: sameTempsExcept_def)

lemma tempStage_frame: "sameTempsExcept (idx st x y) st (tempStage x y mIdx mat st)"
  unfolding tempStage_def
  by (intro sameTempsExcept_step [OF _ thermalStage_frame] diffuseTemp_frame)

lemma pass1Cell_frame: "sameTempsExcept (idx st x y) st (pass1Cell x y st)"
proof -
  have m: "sameTempsExcept (idx st x y) st (snd (moveStages x y mIdx mat st))" for mIdx mat
    by (rule moveStages_frame)
  have t: "sameTempsExcept (idx st x y) st
             (tempStage x y mIdx mat (snd (moveStages x y mIdx mat st)))" for mIdx mat
    by (intro sameTempsExcept_step [OF _ tempStage_frame] m)
  show ?thesis
    using m t
    by (simp add: pass1Cell_def Let_def split_def sameTempsExcept_refl split: option.splits)
qed

lemma diffuseTemp_stores:
  "worldTemp (diffuseTemp x y st) = arr_set (worldTemp st) (idx st x y) (diffused st x y)"
  by (simp add: diffuseTemp_def diffused_def meanWithSelf_def neighbourTemps_def
      neighborCoords_def Let_def)

lemma diffused_cong:
  "gridW s' = gridW s \<Longrightarrow> gridH s' = gridH s \<Longrightarrow> worldTemp s' = worldTemp s
     \<Longrightarrow> diffused s' x y = diffused s x y"
  by (simp add: diffused_def meanWithSelf_def neighbourTemps_def neighborCoords_def
      tempAt_def idx_def Let_def)

lemma diffuseTemp_fields [simp]:
  "gridW (diffuseTemp x y st) = gridW st"
  "gridH (diffuseTemp x y st) = gridH st"
  "materials (diffuseTemp x y st) = materials st"
  by (simp_all add: diffuseTemp_def Let_def split_def)

lemma boilStep_temp:
  assumes "0 \<le> idx st x y" "idx st x y < int (length (worldTemp st))"
  shows "tempAt (boilStep x y mIdx mat st) (idx st x y)
           = (if mid mat = ''WATER'' \<and> jlt (Num 100) (tempAt st (idx st x y))
              then f32 (jadd (tempAt st (idx st x y)) (Num 10)) else tempAt st (idx st x y))"
    and "gridW (boilStep x y mIdx mat st) = gridW st"
    and "materials (boilStep x y mIdx mat st) = materials st"
    and "length (worldTemp (boilStep x y mIdx mat st)) = length (worldTemp st)"
  using assms
  by (auto simp: boilStep_def Let_def split_def tempAt_def arr_get_def arr_set_def)

lemma solidifyStep_temp:
  assumes "0 \<le> idx st x y" "idx st x y < int (length (worldTemp st))"
  shows "tempAt (solidifyStep x y mat st) (idx st x y)
           = (if mid mat = ''LAVA'' \<and> jlt (tempAt st (idx st x y)) (Num 500)
                 \<and> map_of (materials st) ''STONE'' \<noteq> None
              then Num 100 else tempAt st (idx st x y))"
    and "gridW (solidifyStep x y mat st) = gridW st"
    and "materials (solidifyStep x y mat st) = materials st"
    and "length (worldTemp (solidifyStep x y mat st)) = length (worldTemp st)"
  using assms
  by (auto simp: solidifyStep_def Let_def split_def tempAt_def arr_get_def arr_set_def)

lemma igniteStep_temp:
  assumes "0 \<le> idx st x y" "idx st x y < int (length (worldTemp st))"
  shows "tempAt (igniteStep x y mat st) (idx st x y)
           = (if flammable mat \<and> jlt (Num 300) (tempAt st (idx st x y))
              then Num 800 else tempAt st (idx st x y))"
  using assms
  by (auto simp: igniteStep_def Let_def split_def tempAt_def arr_get_def arr_set_def)

lemma idx_cong: "gridW s' = gridW s \<Longrightarrow> idx s' x y = idx s x y"
  by (simp add: idx_def)

lemma thermalStage_temp:
  assumes "0 \<le> idx st x y" "idx st x y < int (length (worldTemp st))"
  shows "tempAt (thermalStage x y mIdx mat st) (idx st x y)
           = afterThresholds mat (map_of (materials st) ''STONE'' \<noteq> None)
               (tempAt st (idx st x y))"
proof -
  let ?b = "boilStep x y mIdx mat st"
  let ?c = "solidifyStep x y mat ?b"
  note b = boilStep_temp [OF assms, of mIdx mat]
  have ib: "idx ?b x y = idx st x y" by (rule idx_cong) (rule b(2))
  have rb: "0 \<le> idx ?b x y" "idx ?b x y < int (length (worldTemp ?b))"
    using assms by (simp_all add: ib b(4))
  note c = solidifyStep_temp [OF rb, of mat, unfolded ib b(3)]
  have ic: "idx ?c x y = idx st x y" using c(2) b(2) by (simp add: idx_def)
  have rc: "0 \<le> idx ?c x y" "idx ?c x y < int (length (worldTemp ?c))"
    using assms by (simp_all add: ic c(4) b(4))
  note d = igniteStep_temp [OF rc, of mat, unfolded ic]
  show ?thesis
    unfolding thermalStage_def afterThresholds_def Let_def d c(1) b(1) ..
qed

lemma pass1_fold_frame:
  assumes "\<forall>c \<in> set cs. idx s0 (fst c) (snd c) \<noteq> i"
  shows "arr_get (worldTemp (fold (\<lambda>c. pass1Cell (fst c) (snd c)) cs s0)) i
           = arr_get (worldTemp s0) i"
  using assms
proof (induction cs arbitrary: s0)
  case Nil
  then show ?case by simp
next
  case (Cons c cs)
  let ?s1 = "pass1Cell (fst c) (snd c) s0"
  have f: "sameTempsExcept (idx s0 (fst c) (snd c)) s0 ?s1" by (rule pass1Cell_frame)
  have n: "idx s0 (fst c) (snd c) \<noteq> i" using Cons.prems by simp
  have a: "arr_get (worldTemp ?s1) i = arr_get (worldTemp s0) i"
    using f n by (auto simp: sameTempsExcept_def)
  have "\<forall>c \<in> set cs. idx ?s1 (fst c) (snd c) \<noteq> i"
    using Cons.prems sameTempsExcept_idx [OF f] by simp
  then have "arr_get (worldTemp (fold (\<lambda>c. pass1Cell (fst c) (snd c)) cs ?s1)) i
               = arr_get (worldTemp ?s1) i"
    by (rule Cons.IH)
  with a show ?case by simp
qed

lemma pass1_fold_grid:
  "gridW (fold (\<lambda>c. pass1Cell (fst c) (snd c)) cs s0) = gridW s0
   \<and> gridH (fold (\<lambda>c. pass1Cell (fst c) (snd c)) cs s0) = gridH s0
   \<and> toggleTemp (fold (\<lambda>c. pass1Cell (fst c) (snd c)) cs s0) = toggleTemp s0
   \<and> length (worldTemp (fold (\<lambda>c. pass1Cell (fst c) (snd c)) cs s0)) = length (worldTemp s0)"
proof (induction cs arbitrary: s0)
  case Nil
  then show ?case by simp
next
  case (Cons c cs)
  show ?case
    using pass1Cell_frame [of s0 "fst c" "snd c"] Cons.IH [of "pass1Cell (fst c) (snd c) s0"]
    by (simp add: sameTempsExcept_def)
qed

lemma acidStep_tempGrid: "tempGrid st (acidStep n st)"
  by (simp add: tempGrid_def acidStep_def Let_def split_def)

lemma oilStep_tempGrid: "tempGrid st (oilStep x y n st)"
  by (simp add: tempGrid_def oilStep_def Let_def split_def)

lemma seedStep_tempGrid: "tempGrid st (seedStep x y n st)"
  by (simp add: tempGrid_def seedStep_def Let_def split_def)

lemma tempGrid_fold:
  assumes "\<And>x s. tempGrid s (f x s)"
  shows "tempGrid st (fold f xs st)"
proof (rule fold_invariant [where P = "tempGrid st"])
  show "tempGrid st st" by (simp add: tempGrid_def)
next
  fix x s
  assume "tempGrid st s"
  then show "tempGrid st (f x s)" using assms [of s x] by (simp add: tempGrid_def)
qed

lemma tempGrid_trans: "tempGrid a b \<Longrightarrow> tempGrid b c \<Longrightarrow> tempGrid a c"
  by (simp add: tempGrid_def)

lemma pass2Cell_tempGrid: "tempGrid st (pass2Cell x y st)"
proof -
  have a: "tempGrid s (fold acidStep cs s)" for s cs
    by (rule tempGrid_fold) (rule acidStep_tempGrid)
  have b: "tempGrid s (fold (oilStep x y) cs s)" for s cs
    by (rule tempGrid_fold) (rule oilStep_tempGrid)
  have c: "tempGrid s (fold (seedStep x y) cs s)" for s cs
    by (rule tempGrid_fold) (rule seedStep_tempGrid)
  have r: "tempGrid s s" for s by (simp add: tempGrid_def)
  have s1: "tempGrid st (if mid mat = ''ACID'' then fold acidStep (neighborCoords st x y) st
                      else st)" for mat
    by (simp add: a r)
  have s2: "tempGrid s (if mid mat = ''OIL'' then fold (oilStep x y) (neighborCoords s x y) s
                      else s)" for mat s
    by (simp add: b r)
  have s3: "tempGrid s (if mid mat = ''SEED'' then fold (seedStep x y) (neighborCoords s x y) s
                      else s)" for mat s
    by (simp add: c r)
  show ?thesis
    unfolding pass2Cell_def Let_def
    by (auto split: option.splits simp: a b c r)
qed

lemma pass2_tempGrid: "tempGrid st (pass2 st)"
proof -
  have row: "tempGrid s (fold (\<lambda>x s'. pass2Cell (int x) (int y) s') xs s)" for s y xs
    by (rule tempGrid_fold) (rule pass2Cell_tempGrid)
  show ?thesis
    unfolding pass2_def
    by (rule tempGrid_fold) (rule row)
qed

lemma thermalStage_none:
  "mid mat \<noteq> ''WATER'' \<Longrightarrow> mid mat \<noteq> ''LAVA'' \<Longrightarrow> \<not> flammable mat
     \<Longrightarrow> thermalStage x y mIdx mat st = st"
  by (simp add: thermalStage_def boilStep_def solidifyStep_def igniteStep_def)

text \<open>
  C5 (as the code has it). With temperature simulation on, take a cell \<open>(x, y)\<close> of the
  grid and the state \<open>s\<close> in which pass 1 reaches it (the cells before it in the visiting
  order already processed). If the cell then holds a registered material of non-negative
  index other than \<open>WALL\<close> and \<open>ERASER\<close> and the movement stages do not move it, then
  after the tick its temperature is \<open>afterThresholds\<close> of \<open>diffused s x y\<close>: the old
  temperature \<open>t\<close> replaced by \<open>t + (m - t) * 0.1\<close> rounded to single precision, where
  \<open>m\<close> is the mean of \<open>t\<close> itself and the temperatures of the existing orthogonal
  neighbours as they stand in \<open>s\<close>, followed by the threshold transitions of the material.
\<close>

theorem tick_diffuses_with_own_cell:
  assumes "toggleTemp st" "length (worldTemp st) = gridW st * gridH st"
    and "cellOrder st = pre @ (x, y) # post"
    and "s = fold (\<lambda>c. pass1Cell (fst c) (snd c)) pre st"
    and "arr_get (worldMat s) (idx s x y) = Some n" "0 \<le> n"
    and "getMatByIndex (Some n) s = Some mat"
    and "mid mat \<noteq> ''WALL''" "mid mat \<noteq> ''ERASER''"
    and "\<not> fst (moveStages x y (Some n) mat s)"
  shows "tempAt (simTick st) (idx st x y)
           = afterThresholds mat (map_of (materials s) ''STONE'' \<noteq> None) (diffused s x y)"
proof -
  let ?f = "\<lambda>c. pass1Cell (fst c) (snd c)"
  let ?i = "idx st x y"
  let ?s1 = "snd (moveStages x y (Some n) mat s)"
  let ?d = "diffuseTemp x y ?s1"
  have g: "gridW s = gridW st" "gridH s = gridH st" "toggleTemp s = toggleTemp st"
    "length (worldTemp s) = length (worldTemp st)"
    using pass1_fold_grid [of pre st] assms(4) by simp_all
  have ix: "idx s x y = ?i" by (rule idx_cong) (rule g(1))
  have mem: "(x, y) \<in> set (cellOrder st)" using assms(3) by simp
  have bd: "0 \<le> x" "x < int (gridW st)" "0 \<le> y" "y < int (gridH st)"
    using cellOrder_bounds [OF mem] by simp_all
  have i0: "0 \<le> ?i" using bd by (simp add: idx_def)
  have "y * int (gridW st) + x < (y + 1) * int (gridW st)"
    using bd by (simp add: algebra_simps)
  also have "\<dots> \<le> int (gridH st) * int (gridW st)"
    using bd by (intro mult_right_mono) simp_all
  finally have il: "?i < int (length (worldTemp st))"
    using assms(2) by (simp add: idx_def mult.commute)
  have m1: "gridW ?s1 = gridW s" "gridH ?s1 = gridH s" "toggleTemp ?s1 = toggleTemp s"
    "worldTemp ?s1 = worldTemp s"
    using moveStages_grid [of x y "Some n" mat s] moveStages_keeps [of x y "Some n" mat s]
    by simp_all
  have cell: "pass1Cell x y s = thermalStage x y (Some n) mat ?d"
    using assms(1,5-10) g(3) m1(3)
    by (simp add: pass1Cell_def Let_def split_def tempStage_def)
  have id: "idx ?d x y = ?i" "idx ?s1 x y = ?i"
    by (simp_all add: idx_def m1(1) g(1))
  have wd: "worldTemp ?d = arr_set (worldTemp s) ?i (diffused s x y)"
    using diffuseTemp_stores [of x y ?s1] diffused_cong [OF m1(1,2,4), of x y]
    by (simp add: id m1(4))
  have td: "tempAt ?d ?i = diffused s x y"
    using i0 il by (simp add: wd tempAt_def arr_get_def arr_set_def g(4))
  have rd: "0 \<le> idx ?d x y" "idx ?d x y < int (length (worldTemp ?d))"
    using i0 il by (simp_all add: id wd g(4))
  have ms: "materials ?s1 = materials s"
    using moveStages_grid [of x y "Some n" mat s] by simp
  have t1: "tempAt (pass1Cell x y s) ?i
              = afterThresholds mat (map_of (materials s) ''STONE'' \<noteq> None) (diffused s x y)"
    using thermalStage_temp [OF rd, of "Some n" mat] by (simp add: cell id td ms)
  have dist: "distinct (pre @ (x, y) # post)" using cellOrder_distinct [of st] assms(3) by simp
  have later: "\<forall>c \<in> set post. idx (pass1Cell x y s) (fst c) (snd c) \<noteq> ?i"
  proof
    fix c assume c: "c \<in> set post"
    then have cm: "c \<in> set (cellOrder st)" using assms(3) by simp
    have ne: "c \<noteq> (x, y)" using dist c by auto
    have gw: "gridW (pass1Cell x y s) = gridW st"
      using pass1Cell_frame [of s x y] g(1) by (simp add: sameTempsExcept_def)
    have "idx st (fst c) (snd c) \<noteq> idx st x y"
    proof
      assume e: "idx st (fst c) (snd c) = idx st x y"
      have "fst c = x \<and> snd c = y"
        using idx_inject [OF e] cellOrder_bounds [OF cm] bd by simp
      then show False using ne by (cases c) simp
    qed
    then show "idx (pass1Cell x y s) (fst c) (snd c) \<noteq> ?i"
      by (simp add: idx_def gw)
  qed
  have p1: "pass1 st = fold ?f post (pass1Cell x y s)"
    by (simp add: pass1_flat assms(3,4))
  have "arr_get (worldTemp (pass1 st)) ?i = arr_get (worldTemp (pass1Cell x y s)) ?i"
    using pass1_fold_frame [OF later] p1 by simp
  moreover have "worldTemp (simTick st) = worldTemp (pass1 st)"
    using pass2_tempGrid [of "pass1 st"] by (simp add: simTick_def tempGrid_def)
  ultimately show ?thesis
    using t1 by (simp add: tempAt_def)
qed

theorem tick_diffuses_with_own_cell_witness:
  "toggleTemp twoStones
   \<and> length (worldTemp twoStones) = gridW twoStones * gridH twoStones
   \<and> cellOrder twoStones = [(0, 0)] @ (1, 0) # []
   \<and> arr_get (worldMat (pass1Cell 0 0 twoStones)) (idx (pass1Cell 0 0 twoStones) 1 0) = Some 4
   \<and> getMatByIndex (Some 4) (pass1Cell 0 0 twoStones)
       = Some ((mk_material ''STONE'')\<lparr>solid := True\<rparr>)
   \<and> \<not> fst (moveStages 1 0 (Some 4) ((mk_material ''STONE'')\<lparr>solid := True\<rparr>)
               (pass1Cell 0 0 twoStones))
   \<and> worldTemp (pass1Cell 0 0 twoStones) = [Num 1, Num 20]
   \<and> meanWithSelf (pass1Cell 0 0 twoStones) 1 0 = Num (21 / 2)
   \<and> diffused (pass1Cell 0 0 twoStones) 1 0 = Num (4993843 / 262144)
   \<and> tempAt (simTick twoStones) (idx twoStones 1 0) = Num (4993843 / 262144)"
proof -
  let ?s = "pass1Cell 0 0 twoStones"
  let ?m = "(mk_material ''STONE'')\<lparr>solid := True\<rparr>"
  have s: "?s = fold (\<lambda>c. pass1Cell (fst c) (snd c)) [(0, 0)] twoStones" by simp
  have h: "toggleTemp twoStones"
    "length (worldTemp twoStones) = gridW twoStones * gridH twoStones"
    "cellOrder twoStones = [(0, 0)] @ (1, 0) # []"
    by code_simp+
  have c: "arr_get (worldMat ?s) (idx ?s 1 0) = Some 4"
    "getMatByIndex (Some 4) ?s = Some ?m"
    "\<not> fst (moveStages 1 0 (Some 4) ?m ?s)"
    by code_simp+
  have m: "mid ?m \<noteq> ''WALL''" "mid ?m \<noteq> ''ERASER''"
    by (simp_all add: mk_material_def)
  have v: "worldTemp ?s = [Num 1, Num 20]" "meanWithSelf ?s 1 0 = Num (21 / 2)"
    "diffused ?s 1 0 = Num (4993843 / 262144)"
    by code_simp+
  have a: "afterThresholds ?m b w = w" for b w
    by (simp add: afterThresholds_def mk_material_def)
  show ?thesis
    using tick_diffuses_with_own_cell [OF h s c(1) _ c(2) m c(3)] h c v
    by (simp add: a)
qed

text \<open>
  C5 as stated fails: a stone cell at 0 with one neighbour at 20 goes to 1 in one tick, where
  the mean of the neighbours alone gives 2; and a wall cell at 20 beside a cell at 0 stays at
  20, where the claimed update gives 18.
\<close>

theorem diffusion_not_neighbour_mean:
  "worldMat twoStones = [4, 4] \<and> worldTemp twoStones = [Num 0, Num 20] \<and> toggleTemp twoStones
   \<and> neighbourTemps twoStones 0 0 = [Num 20]
   \<and> claimedDiffusion twoStones 0 0 = Num 2
   \<and> arr_get (worldTemp (simTick twoStones)) (idx twoStones 0 0) = Some (Num 1)
   \<and> worldMat stoneWall = [4, 6] \<and> worldTemp stoneWall = [Num 0, Num 20]
   \<and> toggleTemp stoneWall
   \<and> getMatByIndex (Some 6) stoneWall = Some ((mk_material ''WALL'')\<lparr>solid := True\<rparr>)
   \<and> claimedDiffusion stoneWall 1 0 = Num 18
   \<and> arr_get (worldTemp (simTick stoneWall)) (idx stoneWall 1 0) = Some (Num 20)"
  by code_simp

subsection \<open>Loading a save file\<close>

lemma renderChunks_keeps:
  "worldMat (snd (renderChunks cs st)) = worldMat st
   \<and> worldTemp (snd (renderChunks cs st)) = worldTemp st
   \<and> materials (snd (renderChunks cs st)) = materials st
   \<and> matIndexMap (snd (renderChunks cs st)) = matIndexMap st"
  by (induction cs arbitrary: st) (simp_all add: Let_def split_def)

lemma render_keeps [simp]:
  "worldMat (snd (render st)) = worldMat st" "worldTemp (snd (render st)) = worldTemp st"
  "materials (snd (render st)) = materials st" "matIndexMap (snd (render st)) = matIndexMap st"
  "gridW (snd (render st)) = gridW st" "gridH (snd (render st)) = gridH st"
  using renderChunks_keeps [of "chunkCoords st" st] renderChunks_frame [of "chunkCoords st" st]
  by (simp_all add: render_def)



text \<open>Stored temperatures are single-precision values: 0.1 is rounded, \<open>null\<close> is 0.\<close>

lemma tempEntry_rounds:
  "tempEntry (Some (1 / 10)) = Num (13421773 / 134217728) \<and> tempEntry None = Num 0
   \<and> tempEntry (Some 50) = Num 50"
  by code_simp




end
